theory Spec2Isabelle
  imports Main "HOL-Library.Word"
begin

section \<open>Machine types and the static tables of lifecounter.c\<close>

text \<open>
  The application runs on a 32-bit ARM target: \<open>int\<close> is a 32-bit two's complement
  value and \<open>uint8_t\<close> an 8-bit unsigned one. Arithmetic on words wraps around, which
  is what the target's instructions do (C itself leaves signed overflow undefined).
\<close>

type_synonym c_int = "32 word"
type_synonym uint8_t = "8 word"
type_synonym uint32_t = "32 word"

abbreviation NL :: char where
  "NL \<equiv> CHR 0x0A"

definition default_life_values :: "c_int list" where
  "default_life_values = [0, 10, 20, 40, 100]"

definition default_life_names :: "string list" where
  "default_life_names = [''Zero'', ''Ten'', ''Twenty'', ''Forty'', ''Hundred'']"

definition toggle_state_values :: "c_int list" where
  "toggle_state_values = [0, 1]"

definition toggle_states_names :: "string list" where
  "toggle_states_names = [''Off'', ''On'']"

text \<open>\<open>sizeof\<close> of an \<open>int\<close> array counts bytes, \<open>COUNT_OF\<close> counts elements.\<close>

definition sizeof_int_array :: "c_int list \<Rightarrow> nat" where
  "sizeof_int_array a = 4 * length a"

definition COUNT_OF :: "'a list \<Rightarrow> nat" where
  "COUNT_OF a = length a"

datatype LifecounterSubmenuIndex =
  LifecounterSubmenuIndexConfigure | LifecounterSubmenuIndexMain | LifecounterSubmenuIndexReset

datatype LifecounterView =
  LifecounterViewSplash | LifecounterViewSubmenu | LifecounterViewConfigure | LifecounterViewMain

datatype LifecounterSound = SoundReset | SoundLifeChanged | SoundPlayerChanged

datatype LifecounterEventId = LifecounterEventIdRedrawScreen | LifecounterEventIdOkPressed

record LifecounterModel =
  default_life :: c_int
  selected_player :: uint8_t
  player_1_life :: c_int
  player_2_life :: c_int
  backlight_on :: bool
  sound_on :: bool

text \<open>
  What a crash of the firmware or an undefined read of C looks like in the model:
  a failed \<open>furi_assert\<close>/\<open>furi_check\<close>, or an array element read outside the array.
\<close>

datatype error = AssertFailed | OutOfBounds

text \<open>Reading \<open>a[i]\<close>: defined only inside the array.\<close>

definition array_read :: "'a list \<Rightarrow> nat \<Rightarrow> error + 'a" where
  "array_read a i = (if i < length a then Inr (a ! i) else Inl OutOfBounds)"

section \<open>The environment: storage, speaker, backlight, log\<close>

text \<open>
  The persistence medium, the speaker and the backlight are collaborators of the
  application. The model keeps of them what the application can observe or cause:
  whether the storage can be opened at all, the content of the one configuration file
  (\<open>None\<close> when it does not exist), whether the speaker can be acquired, the tones
  played (frequency, duration), the backlight directives sent, and the error lines logged.
\<close>

datatype backlight_directive = enforce_auto | enforce_on

record Env =
  storage_ready :: bool
  cfg_file :: "string option"
  speaker_free :: bool
  tones :: "(nat \<times> nat) list"
  backlight_msgs :: "backlight_directive list"
  error_log :: "string list"

definition FURI_LOG_E :: "string \<Rightarrow> Env \<Rightarrow> Env" where
  "FURI_LOG_E msg env = env\<lparr>error_log := error_log env @ [msg]\<rparr>"

subsection \<open>Formatting and parsing decimal numbers\<close>

definition digit_char :: "nat \<Rightarrow> char" where
  "digit_char d = ''0123456789'' ! d"

fun print_nat :: "nat \<Rightarrow> string" where
  "print_nat n = (if n < 10 then [digit_char n] else print_nat (n div 10) @ [digit_char (n mod 10)])"

declare print_nat.simps [simp del]

text \<open>The conversion \<open>%d\<close> of printf.\<close>

definition print_int :: "int \<Rightarrow> string" where
  "print_int i = (if i < 0 then CHR ''-'' # print_nat (nat (- i)) else print_nat (nat i))"

text \<open>\<open>furi_string_printf(settings, "%d\n%d\n%d\n", life, backlight, sound)\<close>.\<close>

definition printf_config :: "c_int \<Rightarrow> c_int \<Rightarrow> c_int \<Rightarrow> string" where
  "printf_config life backlight sound =
     print_int (sint life) @ [NL] @ print_int (sint backlight) @ [NL] @ print_int (sint sound) @ [NL]"

text \<open>The value of a decimal digit, \<open>None\<close> for any other character.\<close>

definition digit_table :: "(char \<times> nat) list" where
  "digit_table = zip ''0123456789'' [0, 1, 2, 3, 4, 5, 6, 7, 8, 9]"

definition digit_val :: "char \<Rightarrow> nat option" where
  "digit_val c = map_of digit_table c"

definition isspace :: "char \<Rightarrow> bool" where
  "isspace c = (c = CHR '' '' \<or> c = CHR 0x09 \<or> c = CHR 0x0A \<or> c = CHR 0x0B
                \<or> c = CHR 0x0C \<or> c = CHR 0x0D)"

text \<open>The digits of \<open>atoi\<close>: accumulate until the first character that is no digit.\<close>

fun atoi_digits :: "int \<Rightarrow> string \<Rightarrow> int" where
  "atoi_digits acc [] = acc"
| "atoi_digits acc (c # cs) =
     (case digit_val c of None \<Rightarrow> acc | Some d \<Rightarrow> atoi_digits (acc * 10 + int d) cs)"

fun atoi_sign :: "string \<Rightarrow> int" where
  "atoi_sign [] = 0"
| "atoi_sign (c # cs) =
     (if c = CHR ''-'' then - atoi_digits 0 cs
      else if c = CHR ''+'' then atoi_digits 0 cs
      else atoi_digits 0 (c # cs))"

definition INT_MAX :: int where
  "INT_MAX = 2147483647"

definition INT_MIN :: int where
  "INT_MIN = - 2147483648"

text \<open>
  \<open>atoi\<close> of the C library: leading white space, an optional sign, decimal digits;
  text that starts with none of these gives 0. The target's library computes it as
  \<open>(int) strtol(s, NULL, 10)\<close>, which saturates at the ends of the range.
\<close>

definition atoi :: "string \<Rightarrow> c_int" where
  "atoi s = word_of_int (max INT_MIN (min INT_MAX (atoi_sign (dropWhile isspace s))))"

subsection \<open>The storage interface\<close>

text \<open>
  \<open>stream_read_line\<close> of the firmware: the bytes up to and including the next
  newline, or up to the end of the stream; it reports failure exactly when it read
  nothing. The model returns the line and the rest of the stream.
\<close>

fun stream_read_line :: "string \<Rightarrow> string \<times> string" where
  "stream_read_line [] = ([], [])"
| "stream_read_line (c # cs) =
     (if c = NL then ([c], cs)
      else (case stream_read_line cs of (line, rest) \<Rightarrow> (c # line, rest)))"

text \<open>\<open>file_stream_open(stream, path, FSAM_READ, FSOM_OPEN_EXISTING)\<close>: the stream
  over the file's content, or failure when the storage or the file is missing.\<close>

definition file_stream_open :: "Env \<Rightarrow> string option" where
  "file_stream_open env = (if storage_ready env then cfg_file env else None)"

text \<open>\<open>storage_file_open(file, path, FSAM_WRITE, FSOM_CREATE_ALWAYS)\<close>: on success
  the file exists and is empty.\<close>

definition storage_file_open :: "Env \<Rightarrow> bool \<times> Env" where
  "storage_file_open env =
     (if storage_ready env then (True, env\<lparr>cfg_file := Some []\<rparr>) else (False, env))"

text \<open>\<open>storage_file_write(file, buffer, strlen(buffer))\<close>: the number of bytes
  written, 0 on a file that is not open.\<close>

definition storage_file_write :: "bool \<Rightarrow> string \<Rightarrow> Env \<Rightarrow> nat \<times> Env" where
  "storage_file_write opened buffer env =
     (if opened then (length buffer, env\<lparr>cfg_file := Some ((case cfg_file env of None \<Rightarrow> [] | Some old \<Rightarrow> old) @ buffer)\<rparr>)
      else (0, env))"

section \<open>write\_config and read\_config\<close>

definition bool_to_int :: "bool \<Rightarrow> c_int" where
  "bool_to_int b = (if b then 1 else 0)"

definition int_to_bool :: "c_int \<Rightarrow> bool" where
  "int_to_bool v = (v \<noteq> 0)"

definition write_config :: "LifecounterModel \<Rightarrow> Env \<Rightarrow> Env" where
  "write_config model env =
     (let life = default_life model;
          backlight = bool_to_int (backlight_on model);
          sound = bool_to_int (sound_on model);
          buffer = printf_config life backlight sound;
          (opened, env1) = storage_file_open env;
          env2 = (if \<not> opened then FURI_LOG_E ''Failed to open file'' env1 else env1);
          (written, env3) = storage_file_write opened buffer env2;
          env4 = (if written = 0 then FURI_LOG_E ''Failed to write to file'' env3 else env3)
      in env4)"

text \<open>The locals \<open>default_life\<close>, \<open>backlight_on\<close>, \<open>sound_on\<close> of \<open>read_config\<close>.\<close>

type_synonym config_locals = "c_int \<times> bool \<times> bool"

text \<open>The loop \<open>for (int i = 0; i < 3; i++)\<close> over the lines of the stream; a failed
  read is logged and the \<open>break\<close> leaves the remaining locals as they are.\<close>

function read_config_loop ::
    "nat \<Rightarrow> string \<Rightarrow> config_locals \<Rightarrow> Env \<Rightarrow> config_locals \<times> Env" where
  "read_config_loop i stream locals env =
     (if i < 3 then
        (case stream_read_line stream of (line, rest) \<Rightarrow>
           if line = [] then (locals, FURI_LOG_E (''Failed to read line '' @ print_nat i) env)
           else (let v = atoi line in
             (case locals of (dl, bl, so) \<Rightarrow>
                read_config_loop (i + 1) rest
                  (if i = 0 then (v, bl, so)
                   else if i = 1 then (dl, int_to_bool v, so)
                   else if i = 2 then (dl, bl, int_to_bool v)
                   else locals) env)))
      else (locals, env))"
  by pat_completeness auto
termination
  by (relation "measure (\<lambda>(i, stream, locals, env). 3 - i)") auto

declare read_config_loop.simps [simp del]

definition read_config :: "Env \<Rightarrow> LifecounterModel \<Rightarrow> LifecounterModel \<times> Env" where
  "read_config env model =
     (let locals0 = (20, False, False);
          (locals, env1) =
             (case file_stream_open env of
                Some stream \<Rightarrow> read_config_loop 0 stream locals0 env
              | None \<Rightarrow> (locals0, FURI_LOG_E ''Failed to open file'' env))
      in (case locals of (dl, bl, so) \<Rightarrow>
           (model\<lparr>default_life := dl, player_1_life := dl, player_2_life := dl,
                  selected_player := 0, backlight_on := bl, sound_on := so\<rparr>, env1)))"


section \<open>Audio feedback\<close>

text \<open>\<open>beep(frequency, duration, volume)\<close>; the volume is 0.8 at every call.\<close>

definition beep :: "nat \<Rightarrow> nat \<Rightarrow> Env \<Rightarrow> Env" where
  "beep frequency duration env =
     (if speaker_free env then env\<lparr>tones := tones env @ [(frequency, duration)]\<rparr> else env)"

definition audio_feedback :: "LifecounterModel \<Rightarrow> LifecounterSound \<Rightarrow> Env \<Rightarrow> Env" where
  "audio_feedback model sound env =
     (if \<not> sound_on model then env
      else (case sound of
              SoundReset \<Rightarrow> beep 320 400 env
            | SoundLifeChanged \<Rightarrow> beep 440 100 env
            | SoundPlayerChanged \<Rightarrow> beep 580 100 env))"

definition notification_message :: "backlight_directive \<Rightarrow> Env \<Rightarrow> Env" where
  "notification_message d env = env\<lparr>backlight_msgs := backlight_msgs env @ [d]\<rparr>"

section \<open>The application object and the view dispatcher\<close>

datatype InputKey =
  InputKeyUp | InputKeyDown | InputKeyRight | InputKeyLeft | InputKeyOk | InputKeyBack

datatype InputType =
  InputTypePress | InputTypeRelease | InputTypeShort | InputTypeLong | InputTypeRepeat

record InputEvent =
  key :: InputKey
  type :: InputType

text \<open>A view id as a navigation callback returns it: \<open>VIEW_NONE\<close> or one of the
  application's four views.\<close>

datatype view_id = VIEW_NONE | View LifecounterView

record VariableItem =
  current_value_index :: uint8_t
  current_value_text :: string

type_synonym FuriTimer = nat

text \<open>
  \<open>LifecounterApp\<close> with the state of the objects it points to: the dispatcher's
  current view (\<open>None\<close> once it has been told to show no view, which stops it), the
  model of the main view, the three adjustable items of the settings list, and the
  timers the application has allocated and not freed. \<open>timer = None\<close> is the
  \<open>NULL\<close> pointer; the firmware's allocator hands out zeroed memory, so a fresh
  \<open>LifecounterApp\<close> and a fresh model start from zeroes.
\<close>

record LifecounterApp =
  current_view :: "LifecounterView option"
  model :: LifecounterModel
  timer :: "FuriTimer option"
  item_default_life :: VariableItem
  item_backlight :: VariableItem
  item_audio :: VariableItem
  timers_running :: "FuriTimer list"
  timers_allocated :: nat
  redraws :: nat
  env :: Env

definition navigation_exit_callback :: view_id where
  "navigation_exit_callback = VIEW_NONE"

definition navigation_submenu_callback :: view_id where
  "navigation_submenu_callback = View LifecounterViewSubmenu"

definition navigation_main_callback :: view_id where
  "navigation_main_callback = View LifecounterViewMain"

text \<open>The previous-callback that \<open>app_alloc\<close> registers for each view with
  \<open>view_set_previous_callback\<close>.\<close>

fun view_previous :: "LifecounterView \<Rightarrow> view_id" where
  "view_previous LifecounterViewSubmenu = navigation_exit_callback"
| "view_previous LifecounterViewConfigure = navigation_submenu_callback"
| "view_previous LifecounterViewMain = navigation_submenu_callback"
| "view_previous LifecounterViewSplash = navigation_main_callback"

definition view_main_enter_callback :: "LifecounterApp \<Rightarrow> error + LifecounterApp" where
  "view_main_enter_callback app =
     (if timer app \<noteq> None then Inl AssertFailed
      else (let t = timers_allocated app in
            Inr (app\<lparr>timer := Some t,
                     timers_allocated := Suc t,
                     timers_running := timers_running app @ [t]\<rparr>)))"

text \<open>\<open>furi_timer_stop\<close> checks its argument: stopping the \<open>NULL\<close> timer crashes.\<close>

definition view_main_exit_callback :: "LifecounterApp \<Rightarrow> error + LifecounterApp" where
  "view_main_exit_callback app =
     (case timer app of
        None \<Rightarrow> Inl AssertFailed
      | Some t \<Rightarrow> Inr (app\<lparr>timers_running := removeAll t (timers_running app), timer := None\<rparr>))"

text \<open>The enter and exit callbacks registered by \<open>app_alloc\<close>: only the main view
  has any.\<close>

fun view_enter :: "LifecounterView \<Rightarrow> LifecounterApp \<Rightarrow> error + LifecounterApp" where
  "view_enter LifecounterViewMain app = view_main_enter_callback app"
| "view_enter _ app = Inr app"

fun view_exit :: "LifecounterView \<Rightarrow> LifecounterApp \<Rightarrow> error + LifecounterApp" where
  "view_exit LifecounterViewMain app = view_main_exit_callback app"
| "view_exit _ app = Inr app"

text \<open>
  \<open>view_dispatcher_switch_to_view\<close> of the firmware: the exit callback of the current
  view, then the new current view, then its enter callback.
\<close>

definition view_dispatcher_switch_to_view ::
    "LifecounterApp \<Rightarrow> view_id \<Rightarrow> error + LifecounterApp" where
  "view_dispatcher_switch_to_view app target =
     (case (case current_view app of None \<Rightarrow> Inr app | Some v \<Rightarrow> view_exit v app) of
        Inl e \<Rightarrow> Inl e
      | Inr app1 \<Rightarrow>
          (case target of
             VIEW_NONE \<Rightarrow> Inr (app1\<lparr>current_view := None\<rparr>)
           | View v \<Rightarrow> view_enter v (app1\<lparr>current_view := Some v\<rparr>)))"

text \<open>\<open>with_view_model(app->view_main, ..., true)\<close>: the model is untouched and a
  redraw is forced.\<close>

definition redraw :: "LifecounterApp \<Rightarrow> LifecounterApp" where
  "redraw app = app\<lparr>redraws := Suc (redraws app)\<rparr>"

section \<open>The callbacks of lifecounter.c\<close>

fun submenu_index :: "LifecounterSubmenuIndex \<Rightarrow> uint32_t" where
  "submenu_index LifecounterSubmenuIndexConfigure = 0"
| "submenu_index LifecounterSubmenuIndexMain = 1"
| "submenu_index LifecounterSubmenuIndexReset = 2"

definition submenu_callback :: "LifecounterApp \<Rightarrow> uint32_t \<Rightarrow> error + LifecounterApp" where
  "submenu_callback app index =
     (if index = submenu_index LifecounterSubmenuIndexConfigure then
        view_dispatcher_switch_to_view app (View LifecounterViewConfigure)
      else if index = submenu_index LifecounterSubmenuIndexMain then
        view_dispatcher_switch_to_view app (View LifecounterViewMain)
      else if index = submenu_index LifecounterSubmenuIndexReset then
        (let m = model app;
             m1 = m\<lparr>player_1_life := default_life m\<rparr>;
             m2 = m1\<lparr>player_2_life := default_life m1\<rparr>;
             env1 = audio_feedback m2 SoundReset (env app)
         in view_dispatcher_switch_to_view (app\<lparr>model := m2, env := env1\<rparr>)
              (View LifecounterViewMain))
      else Inr app)"

definition default_life_change :: "LifecounterApp \<Rightarrow> error + LifecounterApp" where
  "default_life_change app =
     (let index = current_value_index (item_default_life app) in
      (case array_read default_life_names (unat index) of
         Inl e \<Rightarrow> Inl e
       | Inr name \<Rightarrow>
          (case array_read default_life_values (unat index) of
             Inl e \<Rightarrow> Inl e
           | Inr v \<Rightarrow>
               Inr (app\<lparr>item_default_life := (item_default_life app)\<lparr>current_value_text := name\<rparr>,
                        model := (model app)\<lparr>default_life := v\<rparr>\<rparr>))))"

definition backlight_change :: "LifecounterApp \<Rightarrow> error + LifecounterApp" where
  "backlight_change app =
     (let index = current_value_index (item_backlight app) in
      (case array_read toggle_states_names (unat index) of
         Inl e \<Rightarrow> Inl e
       | Inr name \<Rightarrow>
           Inr (app\<lparr>item_backlight := (item_backlight app)\<lparr>current_value_text := name\<rparr>,
                    env := notification_message (if index = 0 then enforce_auto else enforce_on) (env app),
                    model := (model app)\<lparr>backlight_on := (index \<noteq> 0)\<rparr>\<rparr>)))"

definition audio_change :: "LifecounterApp \<Rightarrow> error + LifecounterApp" where
  "audio_change app =
     (let index = current_value_index (item_audio app) in
      (case array_read toggle_states_names (unat index) of
         Inl e \<Rightarrow> Inl e
       | Inr name \<Rightarrow>
           Inr (app\<lparr>item_audio := (item_audio app)\<lparr>current_value_text := name\<rparr>,
                    model := (model app)\<lparr>sound_on := (index \<noteq> 0)\<rparr>\<rparr>)))"

definition setting_item_clicked :: "LifecounterApp \<Rightarrow> uint32_t \<Rightarrow> error + LifecounterApp" where
  "setting_item_clicked app index =
     (if index = 3 then
        (let env1 = audio_feedback (model app) SoundLifeChanged (env app);
             env2 = write_config (model app) env1
         in view_dispatcher_switch_to_view (app\<lparr>env := env2\<rparr>) (View LifecounterViewSubmenu))
      else Inr app)"

definition view_main_custom_event_callback ::
    "LifecounterEventId \<Rightarrow> LifecounterApp \<Rightarrow> bool \<times> LifecounterApp" where
  "view_main_custom_event_callback event app =
     (case event of
        LifecounterEventIdRedrawScreen \<Rightarrow> (True, redraw app)
      | _ \<Rightarrow> (False, app))"

definition view_splash_input_callback ::
    "InputEvent \<Rightarrow> LifecounterApp \<Rightarrow> error + (bool \<times> LifecounterApp)" where
  "view_splash_input_callback event app =
     (if type event = InputTypePress \<and> key event = InputKeyOk then
        (case view_dispatcher_switch_to_view app (View LifecounterViewMain) of
           Inl e \<Rightarrow> Inl e
         | Inr app1 \<Rightarrow> Inr (True, app1))
      else Inr (False, app))"

text \<open>The three key branches of \<open>view_main_input_callback\<close> for a short press, on
  the model and the environment.\<close>

definition main_key_up :: "LifecounterModel \<Rightarrow> Env \<Rightarrow> LifecounterModel \<times> Env" where
  "main_key_up m e =
     (let m1 = (if selected_player m = 0 then m\<lparr>player_1_life := player_1_life m + 1\<rparr>
                else m\<lparr>player_2_life := player_2_life m + 1\<rparr>)
      in (m1, audio_feedback m1 SoundLifeChanged e))"

definition main_key_down :: "LifecounterModel \<Rightarrow> Env \<Rightarrow> LifecounterModel \<times> Env" where
  "main_key_down m e =
     (let m1 = (if selected_player m = 0 then m\<lparr>player_1_life := player_1_life m - 1\<rparr>
                else m\<lparr>player_2_life := player_2_life m - 1\<rparr>)
      in (m1, audio_feedback m1 SoundLifeChanged e))"

definition main_key_left_right :: "LifecounterModel \<Rightarrow> Env \<Rightarrow> LifecounterModel \<times> Env" where
  "main_key_left_right m e =
     (let m1 = (if selected_player m = 0 then m\<lparr>selected_player := 1\<rparr>
                else m\<lparr>selected_player := 0\<rparr>)
      in (m1, audio_feedback m1 SoundPlayerChanged e))"

definition view_main_input_callback ::
    "InputEvent \<Rightarrow> LifecounterApp \<Rightarrow> error + (bool \<times> LifecounterApp)" where
  "view_main_input_callback event app =
     (if type event = InputTypeShort then
        (let (m1, env1) =
               (if key event = InputKeyUp then main_key_up (model app) (env app)
                else if key event = InputKeyDown then main_key_down (model app) (env app)
                else if key event = InputKeyLeft \<or> key event = InputKeyRight then
                  main_key_left_right (model app) (env app)
                else (model app, env app))
         in Inr (False, redraw (app\<lparr>model := m1, env := env1\<rparr>)))
      else if type event = InputTypePress \<and> key event = InputKeyOk then
        (case view_dispatcher_switch_to_view app (View LifecounterViewSubmenu) of
           Inl e \<Rightarrow> Inl e
         | Inr app1 \<Rightarrow> Inr (True, app1))
      else Inr (False, redraw app))"

section \<open>find\_index and app\_alloc\<close>

text \<open>The loop \<open>while (index < size && a[index] != value) ++index\<close>. The element
  \<open>a[index]\<close> is read whenever \<open>index < size\<close>, whether or not the array has it.\<close>

function find_index_loop :: "c_int list \<Rightarrow> nat \<Rightarrow> c_int \<Rightarrow> nat \<Rightarrow> error + nat" where
  "find_index_loop a sz v index =
     (if index < sz then
        (case array_read a index of
           Inl e \<Rightarrow> Inl e
         | Inr x \<Rightarrow> if x \<noteq> v then find_index_loop a sz v (index + 1) else Inr index)
      else Inr index)"
  by pat_completeness auto
termination
  by (relation "measure (\<lambda>(a, sz, v, index). sz - index)") auto

declare find_index_loop.simps [simp del]

definition find_index :: "c_int list \<Rightarrow> nat \<Rightarrow> c_int \<Rightarrow> error + c_int" where
  "find_index a sz v =
     (case find_index_loop a sz v 0 of
        Inl e \<Rightarrow> Inl e
      | Inr index \<Rightarrow> Inr (if index = sz then - 1 else word_of_nat index))"

definition zero_model :: LifecounterModel where
  "zero_model = \<lparr>default_life = 0, selected_player = 0, player_1_life = 0, player_2_life = 0,
                 backlight_on = False, sound_on = False\<rparr>"

text \<open>
  \<open>app_alloc\<close>: the configuration is read into a temporary model \<open>settings\<close>; each of
  its three values is looked up with \<open>find_index\<close>, the result is stored in a
  \<open>uint8_t\<close> and indexes the name table of the item; the main view's model takes its
  starting life from \<open>default_life_values[default_life_index]\<close>; the dispatcher is
  switched to the splash view. The size passed to \<open>find_index\<close> is \<open>sizeof\<close> of the
  array.
\<close>

definition app_alloc :: "Env \<Rightarrow> error + LifecounterApp" where
  "app_alloc env0 =
     (case read_config env0 zero_model of (settings, env1) \<Rightarrow>
      (case find_index default_life_values (sizeof_int_array default_life_values)
              (default_life settings) of
         Inl e \<Rightarrow> Inl e
       | Inr r1 \<Rightarrow>
      (let default_life_index = (ucast r1 :: uint8_t) in
      (case array_read default_life_names (unat default_life_index) of
         Inl e \<Rightarrow> Inl e
       | Inr name1 \<Rightarrow>
      (case find_index toggle_state_values (sizeof_int_array toggle_state_values)
              (bool_to_int (backlight_on settings)) of
         Inl e \<Rightarrow> Inl e
       | Inr r2 \<Rightarrow>
      (let backlight_index = (ucast r2 :: uint8_t) in
      (case array_read toggle_states_names (unat backlight_index) of
         Inl e \<Rightarrow> Inl e
       | Inr name2 \<Rightarrow>
      (case find_index toggle_state_values (sizeof_int_array toggle_state_values)
              (bool_to_int (sound_on settings)) of
         Inl e \<Rightarrow> Inl e
       | Inr r3 \<Rightarrow>
      (let audio_state_index = (ucast r3 :: uint8_t) in
      (case array_read toggle_states_names (unat audio_state_index) of
         Inl e \<Rightarrow> Inl e
       | Inr name3 \<Rightarrow>
      (case array_read default_life_values (unat default_life_index) of
         Inl e \<Rightarrow> Inl e
       | Inr dl \<Rightarrow>
      (let m = zero_model\<lparr>default_life := dl, player_1_life := dl, player_2_life := dl,
                          backlight_on := backlight_on settings, sound_on := sound_on settings\<rparr>;
           env2 = notification_message
                    (if backlight_on settings then enforce_on else enforce_auto) env1;
           app = \<lparr>current_view = None, model = m, timer = None,
                  item_default_life =
                    \<lparr>current_value_index = default_life_index, current_value_text = name1\<rparr>,
                  item_backlight =
                    \<lparr>current_value_index = backlight_index, current_value_text = name2\<rparr>,
                  item_audio =
                    \<lparr>current_value_index = audio_state_index, current_value_text = name3\<rparr>,
                  timers_running = [], timers_allocated = 0, redraws = 0, env = env2\<rparr>
       in view_dispatcher_switch_to_view app (View LifecounterViewSplash)))))))))))))"

section \<open>The event loop\<close>

text \<open>
  What the dispatcher and the two list modules of the firmware deliver to the
  application: a key event for the current view; the menu reporting the index of the
  entry that was chosen; the settings list reporting that the item in a row took a new
  value index, or that a row was clicked; the periodic timer elapsing.
\<close>

datatype Event =
  Input InputEvent
| SubmenuItem uint32_t
| ItemChange nat uint8_t
| ItemClick uint32_t
| TimerElapsed

text \<open>The number of values each row of the settings list was added with.\<close>

definition values_count :: "nat \<Rightarrow> nat" where
  "values_count row =
     (if row = 0 then COUNT_OF default_life_values
      else if row = 1 then COUNT_OF toggle_state_values
      else if row = 2 then COUNT_OF toggle_state_values
      else 0)"

text \<open>The settings list sets the item's value index, always below the row's count,
  and calls the item's change callback.\<close>

definition item_change :: "nat \<Rightarrow> uint8_t \<Rightarrow> LifecounterApp \<Rightarrow> error + LifecounterApp" where
  "item_change row i app =
     (if \<not> unat i < values_count row then Inr app
      else if row = 0 then
        default_life_change (app\<lparr>item_default_life := (item_default_life app)\<lparr>current_value_index := i\<rparr>\<rparr>)
      else if row = 1 then
        backlight_change (app\<lparr>item_backlight := (item_backlight app)\<lparr>current_value_index := i\<rparr>\<rparr>)
      else
        audio_change (app\<lparr>item_audio := (item_audio app)\<lparr>current_value_index := i\<rparr>\<rparr>))"

text \<open>The input callback of a view. The menu and the settings list have the
  firmware's own, which leave the Back key to the dispatcher.\<close>

fun view_input ::
    "LifecounterView \<Rightarrow> InputEvent \<Rightarrow> LifecounterApp \<Rightarrow> error + (bool \<times> LifecounterApp)" where
  "view_input LifecounterViewSplash event app = view_splash_input_callback event app"
| "view_input LifecounterViewMain event app = view_main_input_callback event app"
| "view_input _ event app = Inr (False, app)"

text \<open>
  \<open>view_dispatcher_handle_input\<close> of the firmware: the event goes to the current
  view; a short or long press of Back that the view did not consume switches to the
  view its previous-callback names.
\<close>

definition view_dispatcher_handle_input ::
    "LifecounterView \<Rightarrow> InputEvent \<Rightarrow> LifecounterApp \<Rightarrow> error + LifecounterApp" where
  "view_dispatcher_handle_input v event app =
     (case view_input v event app of
        Inl e \<Rightarrow> Inl e
      | Inr (is_consumed, app1) \<Rightarrow>
          if \<not> is_consumed \<and> key event = InputKeyBack
             \<and> (type event = InputTypeShort \<or> type event = InputTypeLong)
          then view_dispatcher_switch_to_view app1 (view_previous v)
          else Inr app1)"

text \<open>\<open>view_main_timer_callback\<close> sends the custom event; the dispatcher hands it to
  the custom callback of the current view, which only the main view has.\<close>

definition view_main_timer_callback :: "LifecounterView \<Rightarrow> LifecounterApp \<Rightarrow> LifecounterApp" where
  "view_main_timer_callback v app =
     (if v = LifecounterViewMain
      then snd (view_main_custom_event_callback LifecounterEventIdRedrawScreen app)
      else app)"

definition dispatch :: "LifecounterApp \<Rightarrow> Event \<Rightarrow> error + LifecounterApp" where
  "dispatch app ev =
     (case current_view app of
        None \<Rightarrow> Inr app
      | Some v \<Rightarrow>
         (case ev of
            Input event \<Rightarrow> view_dispatcher_handle_input v event app
          | SubmenuItem index \<Rightarrow>
              if v = LifecounterViewSubmenu then submenu_callback app index else Inr app
          | ItemChange row i \<Rightarrow>
              if v = LifecounterViewConfigure then item_change row i app else Inr app
          | ItemClick index \<Rightarrow>
              if v = LifecounterViewConfigure then setting_item_clicked app index else Inr app
          | TimerElapsed \<Rightarrow>
              if timers_running app \<noteq> [] then Inr (view_main_timer_callback v app) else Inr app))"

fun run :: "LifecounterApp \<Rightarrow> Event list \<Rightarrow> error + LifecounterApp" where
  "run app [] = Inr app"
| "run app (ev # evs) = (case dispatch app ev of Inl e \<Rightarrow> Inl e | Inr app1 \<Rightarrow> run app1 evs)"

text \<open>\<open>lifecounter_app\<close>: allocate the application, then let the dispatcher run over
  the events that arrive.\<close>

definition lifecounter_app :: "Env \<Rightarrow> Event list \<Rightarrow> error + LifecounterApp" where
  "lifecounter_app env0 evs =
     (case app_alloc env0 of Inl e \<Rightarrow> Inl e | Inr app \<Rightarrow> run app evs)"

section \<open>Notions used to state the properties\<close>

text \<open>The lines of a file as successive \<open>stream_read_line\<close> calls return them: each
  ends with its newline, only the last may lack one.\<close>

fun split_lines :: "string \<Rightarrow> string \<Rightarrow> string list" where
  "split_lines cur [] = (if cur = [] then [] else [cur])"
| "split_lines cur (c # cs) =
     (if c = NL then (cur @ [c]) # split_lines [] cs else split_lines (cur @ [c]) cs)"

definition config_lines :: "Env \<Rightarrow> string list" where
  "config_lines e = (case file_stream_open e of None \<Rightarrow> [] | Some s \<Rightarrow> split_lines [] s)"

text \<open>Text in which no digit follows the optional white space and sign.\<close>

definition non_numeric :: "string \<Rightarrow> bool" where
  "non_numeric s =
     (case dropWhile isspace s of
        [] \<Rightarrow> True
      | c # cs \<Rightarrow>
          (if c = CHR ''-'' \<or> c = CHR ''+''
           then (case cs of [] \<Rightarrow> True | d # ds \<Rightarrow> digit_val d = None)
           else digit_val c = None))"

text \<open>The counter that Up and Down act on, as the draw callback picks the highlighted
  panel, and the other one.\<close>

definition selected_life :: "LifecounterModel \<Rightarrow> c_int" where
  "selected_life m = (if selected_player m = 0 then player_1_life m else player_2_life m)"

definition other_life :: "LifecounterModel \<Rightarrow> c_int" where
  "other_life m = (if selected_player m = 0 then player_2_life m else player_1_life m)"

text \<open>The timer discipline: \<open>app->timer\<close> is set exactly while the main view is the
  current one, and the timers alive are that one timer and nothing else.\<close>

definition timer_inv :: "LifecounterApp \<Rightarrow> bool" where
  "timer_inv app =
     ((timer app \<noteq> None) = (current_view app = Some LifecounterViewMain)
      \<and> timers_running app = (case timer app of None \<Rightarrow> [] | Some t \<Rightarrow> [t])
      \<and> (case timer app of None \<Rightarrow> True | Some t \<Rightarrow> t < timers_allocated app))"

definition back_short :: InputEvent where
  "back_short = \<lparr>key = InputKeyBack, type = InputTypeShort\<rparr>"

definition short_press :: "InputKey \<Rightarrow> InputEvent" where
  "short_press k = \<lparr>key = k, type = InputTypeShort\<rparr>"

definition is_toggle :: "InputEvent \<Rightarrow> bool" where
  "is_toggle ev = (type ev = InputTypeShort \<and> (key ev = InputKeyLeft \<or> key ev = InputKeyRight))"

section \<open>Example environments and records\<close>

definition env_with :: "string option \<Rightarrow> Env" where
  "env_with content = \<lparr>storage_ready = True, cfg_file = content, speaker_free = True,
                        tones = [], backlight_msgs = [], error_log = []\<rparr>"

definition prefs_100_on_on :: LifecounterModel where
  "prefs_100_on_on = \<lparr>default_life = 100, selected_player = 0, player_1_life = 3,
                       player_2_life = 7, backlight_on = True, sound_on = True\<rparr>"

text \<open>A state on the given view with the given model, the timer set up as the main
  view's enter callback leaves it.\<close>

definition app_on :: "LifecounterView \<Rightarrow> LifecounterModel \<Rightarrow> LifecounterApp" where
  "app_on v m =
     \<lparr>current_view = Some v, model = m,
      timer = (if v = LifecounterViewMain then Some 0 else None),
      item_default_life = \<lparr>current_value_index = 2, current_value_text = ''Twenty''\<rparr>,
      item_backlight = \<lparr>current_value_index = 0, current_value_text = ''Off''\<rparr>,
      item_audio = \<lparr>current_value_index = 0, current_value_text = ''Off''\<rparr>,
      timers_running = (if v = LifecounterViewMain then [0] else []),
      timers_allocated = (if v = LifecounterViewMain then 1 else 0),
      redraws = 0, env = env_with None\<rparr>"

definition model_with :: "uint8_t \<Rightarrow> c_int \<Rightarrow> c_int \<Rightarrow> LifecounterModel" where
  "model_with sel a b = \<lparr>default_life = 20, selected_player = sel, player_1_life = a,
                         player_2_life = b, backlight_on = False, sound_on = False\<rparr>"

text \<open>The state \<open>app_alloc\<close> builds when there is no configuration file.\<close>

definition fresh_start :: LifecounterApp where
  "fresh_start =
     (app_on LifecounterViewSplash (model_with 0 20 20))
       \<lparr>env := (env_with None)\<lparr>backlight_msgs := [enforce_auto],
                                error_log := [''Failed to open file'']\<rparr>\<rparr>"

text \<open>From the splash view to the counter view, back to the menu, and to the counter
  view again, the timer elapsing in between.\<close>

definition there_and_back :: "Event list" where
  "there_and_back =
     [Input \<lparr>key = InputKeyOk, type = InputTypePress\<rparr>, TimerElapsed,
      Input back_short, SubmenuItem 1, TimerElapsed]"

section \<open>Printing and parsing are inverse\<close>

lemma digit_val_digit_char: "d < 10 \<Longrightarrow> digit_val (digit_char d) = Some d"
proof -
  assume "d < 10"
  then consider "d = 0" | "d = 1" | "d = 2" | "d = 3" | "d = 4" | "d = 5" | "d = 6" | "d = 7" | "d = 8" | "d = 9"
    by atomize_elim arith
  then show ?thesis
    by cases (simp_all add: digit_val_def digit_table_def digit_char_def)
qed

lemma atoi_digits_print_nat:
  "atoi_digits acc (print_nat n @ rest) = atoi_digits (acc * 10 ^ length (print_nat n) + int n) rest"
proof (induction n arbitrary: acc rest rule: print_nat.induct)
  case (1 n)
  show ?case
  proof (cases "n < 10")
    case True
    then show ?thesis
      by (simp add: print_nat.simps [of n] digit_val_digit_char)
  next
    case False
    have d: "digit_val (digit_char (n mod 10)) = Some (n mod 10)"
      by (simp add: digit_val_digit_char)
    have "atoi_digits acc (print_nat n @ rest)
        = atoi_digits acc (print_nat (n div 10) @ digit_char (n mod 10) # rest)"
      using False by (simp add: print_nat.simps [of n])
    also have "\<dots> = atoi_digits (acc * 10 ^ length (print_nat (n div 10)) + int (n div 10))
                       (digit_char (n mod 10) # rest)"
      by (rule "1.IH" [OF False])
    also have "\<dots> = atoi_digits ((acc * 10 ^ length (print_nat (n div 10)) + int (n div 10)) * 10 + int (n mod 10)) rest"
      by (simp add: d)
    also have "(acc * 10 ^ length (print_nat (n div 10)) + int (n div 10)) * 10 + int (n mod 10)
        = acc * 10 ^ length (print_nat n) + int n"
    proof -
      have "int (n mod 10 + 10 * (n div 10)) = int n" by simp
      then have "int (n mod 10) + 10 * int (n div 10) = int n"
        by (simp only: of_nat_add of_nat_mult of_nat_numeral)
      then show ?thesis
        using False by (simp add: print_nat.simps [of n] algebra_simps)
    qed
    finally show ?thesis .
  qed
qed


lemma print_nat_not_Nil: "print_nat n \<noteq> []"
  by (simp add: print_nat.simps [of n])

lemma hd_print_nat: "\<exists>d<10. hd (print_nat n) = digit_char d"
proof (induction n rule: print_nat.induct)
  case (1 n)
  show ?case
  proof (cases "n < 10")
    case True
    then show ?thesis by (auto simp: print_nat.simps [of n])
  next
    case False
    then show ?thesis using "1.IH" by (auto simp: print_nat.simps [of n] print_nat_not_Nil)
  qed
qed

lemma digit_char_props: "d < 10 \<Longrightarrow> \<not> isspace (digit_char d) \<and> digit_char d \<noteq> CHR ''-'' \<and> digit_char d \<noteq> CHR ''+''"
proof -
  assume "d < 10"
  then consider "d = 0" | "d = 1" | "d = 2" | "d = 3" | "d = 4" | "d = 5" | "d = 6" | "d = 7" | "d = 8" | "d = 9"
    by atomize_elim arith
  then show ?thesis
    by cases (simp_all add: isspace_def digit_char_def)
qed

lemma atoi_sign_print_int: "digit_val c = None \<Longrightarrow> atoi_sign (dropWhile isspace (print_int i @ c # rest)) = i"
proof (cases "i < 0")
  case True
  assume c: "digit_val c = None"
  have "atoi_digits 0 (print_nat (nat (- i)) @ c # rest) = int (nat (- i))"
    by (simp add: atoi_digits_print_nat c)
  with True show ?thesis
    by (simp add: print_int_def isspace_def)
next
  case False
  assume c: "digit_val c = None"
  obtain d where d: "d < 10" "hd (print_nat (nat i)) = digit_char d"
    using hd_print_nat by blast
  obtain x xs where x: "print_nat (nat i) = x # xs"
    using print_nat_not_Nil by (cases "print_nat (nat i)") auto
  with d have xd: "x = digit_char d" by simp
  have "atoi_digits 0 (print_nat (nat i) @ c # rest) = int (nat i)"
    by (simp add: atoi_digits_print_nat c)
  then have "atoi_sign (dropWhile isspace (print_nat (nat i) @ c # rest)) = int (nat i)"
    using digit_char_props [OF d(1)] by (simp add: x xd)
  with False show ?thesis
    by (simp add: print_int_def)
qed

lemma atoi_print_int:
  "digit_val c = None \<Longrightarrow> atoi (print_int (sint w) @ c # rest) = (w :: c_int)"
proof -
  assume c: "digit_val c = None"
  have "INT_MIN \<le> sint w" "sint w \<le> INT_MAX"
    using sint_ge [of w] sint_lt [of w] by (simp_all add: INT_MIN_def INT_MAX_def)
  then show ?thesis
    by (simp add: atoi_def atoi_sign_print_int [OF c])
qed


lemma digit_char_not_NL: "d < 10 \<Longrightarrow> digit_char d \<noteq> NL"
  using digit_char_props [of d] by (auto simp: isspace_def)

lemma print_nat_no_NL: "NL \<notin> set (print_nat n)"
proof (induction n rule: print_nat.induct)
  case (1 n)
  show ?case
  proof (cases "n < 10")
    case True
    then show ?thesis using digit_char_not_NL [of n] by (simp add: print_nat.simps [of n])
  next
    case False
    then show ?thesis
      using "1.IH" digit_char_not_NL [of "n mod 10"] by (simp add: print_nat.simps [of n])
  qed
qed

lemma print_int_no_NL: "NL \<notin> set (print_int i)"
  by (simp add: print_int_def print_nat_no_NL)

lemma stream_read_line_line:
  "NL \<notin> set l \<Longrightarrow> stream_read_line (l @ NL # rest) = (l @ [NL], rest)"
  by (induction l) auto

lemma digit_val_NL: "digit_val NL = None"
  by (simp add: digit_val_def digit_table_def)

lemma atoi_line: "atoi (print_int (sint w) @ [NL]) = (w :: c_int)"
  using atoi_print_int [OF digit_val_NL, of w "[]"] by simp

lemma read_config_loop_printf:
  "fst (read_config_loop 0 (printf_config a b c) locals e) = (a, int_to_bool b, int_to_bool c)"
proof -
  obtain dl bl so where l: "locals = (dl, bl, so)" by (cases locals) auto
  have r: "\<And>w rest. stream_read_line (print_int (sint w) @ NL # rest) = (print_int (sint w) @ [NL], rest)"
    by (rule stream_read_line_line [OF print_int_no_NL])
  have s3: "fst (read_config_loop 3 [] (a, int_to_bool b, int_to_bool c) e) = (a, int_to_bool b, int_to_bool c)"
    by (subst read_config_loop.simps) simp
  have s2: "fst (read_config_loop 2 (print_int (sint c) @ [NL]) (a, int_to_bool b, so) e) = (a, int_to_bool b, int_to_bool c)"
    using r [of c "[]"]
    by (subst read_config_loop.simps) (simp add: atoi_line s3 del: One_nat_def)
  have s1: "fst (read_config_loop 1 (print_int (sint b) @ NL # print_int (sint c) @ [NL]) (a, bl, so) e) = (a, int_to_bool b, int_to_bool c)"
    using r [of b]
    by (subst read_config_loop.simps) (simp add: atoi_line s2 del: One_nat_def)
  show ?thesis
    unfolding printf_config_def l using r [of a]
    by (subst read_config_loop.simps) (simp add: atoi_line s1 del: One_nat_def)
qed

lemma int_to_bool_bool_to_int: "int_to_bool (bool_to_int b) = b"
  by (simp add: int_to_bool_def bool_to_int_def)

lemma write_config_ready:
  "storage_ready e \<Longrightarrow>
   write_config m e = e\<lparr>cfg_file := Some (printf_config (default_life m)
       (bool_to_int (backlight_on m)) (bool_to_int (sound_on m)))\<rparr>"
  by (simp add: write_config_def storage_file_open_def storage_file_write_def Let_def printf_config_def print_int_def print_nat_not_Nil)

lemma write_config_not_ready:
  "\<not> storage_ready e \<Longrightarrow> cfg_file (write_config m e) = cfg_file e"
  by (simp add: write_config_def storage_file_open_def storage_file_write_def Let_def FURI_LOG_E_def)

section \<open>The preferences round trip\<close>

text \<open>
  Claim C1. For every valid preferences record (default life one of 0, 10, 20, 40, 100,
  any two flags), \<open>write_config\<close> followed by \<open>read_config\<close> on a storage that can be
  opened, with nothing else touching the storage in between, reads back the same default
  life, backlight flag and sound flag.
\<close>

theorem write_read_round_trip:
  assumes "storage_ready e" and "default_life m \<in> set default_life_values"
  shows "default_life (fst (read_config (write_config m e) m0)) = default_life m
       \<and> backlight_on (fst (read_config (write_config m e) m0)) = backlight_on m
       \<and> sound_on (fst (read_config (write_config m e) m0)) = sound_on m"
  using assms(1)
  by (simp add: write_config_ready read_config_def file_stream_open_def Let_def case_prod_beta
      read_config_loop_printf int_to_bool_bool_to_int)

theorem write_read_round_trip_witness:
  "storage_ready (env_with None) \<and> default_life prefs_100_on_on \<in> set default_life_values
   \<and> default_life (fst (read_config (write_config prefs_100_on_on (env_with None)) zero_model)) = 100
   \<and> backlight_on (fst (read_config (write_config prefs_100_on_on (env_with None)) zero_model))
   \<and> sound_on (fst (read_config (write_config prefs_100_on_on (env_with None)) zero_model))"
  using write_read_round_trip [of "env_with None" prefs_100_on_on zero_model]
  by (simp add: env_with_def prefs_100_on_on_def default_life_values_def)

section \<open>What read\_config returns\<close>

lemma stream_read_line_Nil_iff: "fst (stream_read_line s) = [] \<longleftrightarrow> s = []"
  by (cases s) (auto split: prod.splits)

lemma split_lines_read:
  "s \<noteq> [] \<Longrightarrow>
   split_lines cur s = (cur @ fst (stream_read_line s)) # split_lines [] (snd (stream_read_line s))"
proof (induction s arbitrary: cur)
  case Nil
  then show ?case by simp
next
  case (Cons c cs)
  show ?case
  proof (cases "c = NL")
    case True
    then show ?thesis by simp
  next
    case False
    show ?thesis
    proof (cases "cs = []")
      case True
      with False show ?thesis by simp
    next
      case ne: False
      from Cons.IH [OF ne, of "cur @ [c]"] False show ?thesis
        by (simp add: case_prod_beta)
    qed
  qed
qed

lemma split_lines_Nil: "split_lines [] s = [] \<longleftrightarrow> s = []"
  using split_lines_read [of s "[]"] by (cases s) auto

lemma read_config_loop_from_3: "fst (read_config_loop 3 s L e) = L"
  by (subst read_config_loop.simps) simp

lemma read_config_loop_from_2:
  "fst (read_config_loop 2 s (dl, bl, so) e) =
     (dl, bl, case split_lines [] s of [] \<Rightarrow> so | l # _ \<Rightarrow> int_to_bool (atoi l))"
proof (cases "s = []")
  case True
  then show ?thesis by (subst read_config_loop.simps) simp
next
  case False
  then show ?thesis
    using split_lines_read [OF False, of "[]"] stream_read_line_Nil_iff [of s]
    by (subst read_config_loop.simps) (simp add: case_prod_beta read_config_loop_from_3 del: One_nat_def)
qed

lemma read_config_loop_from_1:
  "fst (read_config_loop 1 s (dl, bl, so) e) =
     (dl, (case split_lines [] s of [] \<Rightarrow> bl | l # _ \<Rightarrow> int_to_bool (atoi l)),
          (case drop 1 (split_lines [] s) of [] \<Rightarrow> so | l # _ \<Rightarrow> int_to_bool (atoi l)))"
proof (cases "s = []")
  case True
  then show ?thesis by (subst read_config_loop.simps) simp
next
  case False
  then show ?thesis
    using split_lines_read [OF False, of "[]"] stream_read_line_Nil_iff [of s]
    apply (subst read_config_loop.simps)
    apply (simp add: case_prod_beta read_config_loop_from_2 del: One_nat_def)
    apply (simp split: list.splits)
    done
qed

lemma read_config_loop_from_0:
  "fst (read_config_loop 0 s (dl, bl, so) e) =
     ((case split_lines [] s of [] \<Rightarrow> dl | l # _ \<Rightarrow> atoi l),
      (case drop 1 (split_lines [] s) of [] \<Rightarrow> bl | l # _ \<Rightarrow> int_to_bool (atoi l)),
      (case drop 2 (split_lines [] s) of [] \<Rightarrow> so | l # _ \<Rightarrow> int_to_bool (atoi l)))"
proof (cases "s = []")
  case True
  then show ?thesis by (subst read_config_loop.simps) simp
next
  case False
  then show ?thesis
    using split_lines_read [OF False, of "[]"] stream_read_line_Nil_iff [of s]
    apply (subst read_config_loop.simps)
    apply (simp add: case_prod_beta read_config_loop_from_1 del: One_nat_def)
    apply (simp add: numeral_2_eq_2 split: list.splits)
    done
qed

lemma atoi_non_numeric: "non_numeric s \<Longrightarrow> atoi s = 0"
proof -
  assume n: "non_numeric s"
  have "atoi_sign (dropWhile isspace s) = 0"
  proof (cases "dropWhile isspace s")
    case Nil
    then show ?thesis by (simp only: atoi_sign.simps)
  next
    case (Cons c cs)
    with n show ?thesis
      by (cases cs) (auto simp: non_numeric_def split: if_splits)
  qed
  then show ?thesis by (simp add: atoi_def INT_MIN_def INT_MAX_def)
qed

lemma read_config_lines:
  "fst (read_config e m) =
     m\<lparr>default_life := (case config_lines e of [] \<Rightarrow> 20 | l # _ \<Rightarrow> atoi l),
       player_1_life := (case config_lines e of [] \<Rightarrow> 20 | l # _ \<Rightarrow> atoi l),
       player_2_life := (case config_lines e of [] \<Rightarrow> 20 | l # _ \<Rightarrow> atoi l),
       selected_player := 0,
       backlight_on := (case drop 1 (config_lines e) of [] \<Rightarrow> False | l # _ \<Rightarrow> int_to_bool (atoi l)),
       sound_on := (case drop 2 (config_lines e) of [] \<Rightarrow> False | l # _ \<Rightarrow> int_to_bool (atoi l))\<rparr>"
  by (simp add: read_config_def config_lines_def Let_def case_prod_beta read_config_loop_from_0 split: option.splits)

text \<open>
  Claim C2, as amended. \<open>read_config\<close> is a total function: it returns a record for
  every storage. Each of the first three lines that is present is parsed with \<open>atoi\<close>;
  a field whose line is missing keeps its default (20, off, off), so a storage that
  cannot be opened or holds no byte gives the record 20/off/off. A non-numeric line
  parses as 0: for the first line that is default life 0, not 20.
\<close>

theorem read_config_fallback:
  "fst (read_config e m) =
     m\<lparr>default_life := (case config_lines e of [] \<Rightarrow> 20 | l # _ \<Rightarrow> atoi l),
       player_1_life := (case config_lines e of [] \<Rightarrow> 20 | l # _ \<Rightarrow> atoi l),
       player_2_life := (case config_lines e of [] \<Rightarrow> 20 | l # _ \<Rightarrow> atoi l),
       selected_player := 0,
       backlight_on := (case drop 1 (config_lines e) of [] \<Rightarrow> False | l # _ \<Rightarrow> int_to_bool (atoi l)),
       sound_on := (case drop 2 (config_lines e) of [] \<Rightarrow> False | l # _ \<Rightarrow> int_to_bool (atoi l))\<rparr>
   \<and> (file_stream_open e = None \<or> file_stream_open e = Some [] \<longrightarrow> config_lines e = [])
   \<and> (non_numeric s \<longrightarrow> atoi s = 0)"
  by (auto simp: read_config_lines atoi_non_numeric config_lines_def)

theorem read_config_fallback_witness:
  "file_stream_open (env_with None) = None \<and> non_numeric ''abc''
   \<and> default_life (fst (read_config (env_with None) zero_model)) = 20
   \<and> \<not> backlight_on (fst (read_config (env_with None) zero_model))
   \<and> \<not> sound_on (fst (read_config (env_with None) zero_model))
   \<and> atoi ''abc'' = 0"
  using read_config_fallback [of "env_with None" zero_model "''abc''"]
  by (simp add: env_with_def file_stream_open_def non_numeric_def isspace_def
        digit_val_def digit_table_def)

theorem read_config_corrupt_counterexample:
  "default_life (fst (read_config (env_with (Some ''abc'')) zero_model)) \<noteq> 20"
  by code_simp

section \<open>The timer discipline is kept by every callback\<close>

lemma timer_inv_frame [simp]:
  "timer_inv (a\<lparr>model := m\<rparr>) = timer_inv a"
  "timer_inv (a\<lparr>env := e\<rparr>) = timer_inv a"
  "timer_inv (a\<lparr>redraws := r\<rparr>) = timer_inv a"
  "timer_inv (a\<lparr>item_default_life := i\<rparr>) = timer_inv a"
  "timer_inv (a\<lparr>item_backlight := i\<rparr>) = timer_inv a"
  "timer_inv (a\<lparr>item_audio := i\<rparr>) = timer_inv a"
  by (simp_all add: timer_inv_def split: option.splits)

lemma switch_ok:
  assumes "timer_inv a"
  shows "\<exists>a'. view_dispatcher_switch_to_view a target = Inr a' \<and> timer_inv a'
           \<and> current_view a' = (case target of VIEW_NONE \<Rightarrow> None | View v \<Rightarrow> Some v)
           \<and> model a' = model a \<and> env a' = env a \<and> redraws a' = redraws a
           \<and> item_default_life a' = item_default_life a
           \<and> item_backlight a' = item_backlight a \<and> item_audio a' = item_audio a"
proof (cases "current_view a = Some LifecounterViewMain")
  case True
  with assms obtain t where t: "timer a = Some t" "timers_running a = [t]"
    by (auto simp: timer_inv_def)
  show ?thesis
  proof (cases target)
    case VIEW_NONE
    with True t show ?thesis
      by (simp add: view_dispatcher_switch_to_view_def view_main_exit_callback_def timer_inv_def)
  next
    case (View v)
    with True t show ?thesis
      by (cases v)
         (simp_all add: view_dispatcher_switch_to_view_def view_main_exit_callback_def
            view_main_enter_callback_def timer_inv_def Let_def)
  qed
next
  case False
  with assms have t: "timer a = None" "timers_running a = []"
    by (auto simp: timer_inv_def)
  have ex: "(case current_view a of None \<Rightarrow> Inr a | Some v \<Rightarrow> view_exit v a) = Inr a"
    using False by (cases "current_view a"; cases "the (current_view a)") auto
  show ?thesis
  proof (cases target)
    case VIEW_NONE
    with t show ?thesis
      by (simp add: view_dispatcher_switch_to_view_def ex timer_inv_def)
  next
    case (View v)
    with t show ?thesis
      by (cases v)
         (simp_all add: view_dispatcher_switch_to_view_def ex
            view_main_enter_callback_def timer_inv_def Let_def)
  qed
qed


lemma cfg_file_beep [simp]: "cfg_file (beep f d e) = cfg_file e"
  by (simp add: beep_def)

lemma cfg_file_audio_feedback [simp]: "cfg_file (audio_feedback m s e) = cfg_file e"
  by (cases s) (simp_all add: audio_feedback_def)

lemma cfg_file_notification [simp]: "cfg_file (notification_message d e) = cfg_file e"
  by (simp add: notification_message_def)

lemma main_key_frames [simp]:
  "cfg_file (snd (main_key_up m e)) = cfg_file e"
  "cfg_file (snd (main_key_down m e)) = cfg_file e"
  "cfg_file (snd (main_key_left_right m e)) = cfg_file e"
  by (simp_all add: main_key_up_def main_key_down_def main_key_left_right_def Let_def)

lemma view_splash_input_ok:
  assumes "timer_inv a"
  shows "\<exists>c a'. view_splash_input_callback ev a = Inr (c, a') \<and> timer_inv a'
            \<and> cfg_file (env a') = cfg_file (env a)"
proof (cases "type ev = InputTypePress \<and> key ev = InputKeyOk")
  case True
  from switch_ok [OF assms, of "View LifecounterViewMain"] obtain a' where
    "view_dispatcher_switch_to_view a (View LifecounterViewMain) = Inr a'" "timer_inv a'" "env a' = env a"
    by auto
  with True show ?thesis by (auto simp: view_splash_input_callback_def)
next
  case False
  with assms show ?thesis by (auto simp: view_splash_input_callback_def)
qed

lemma view_main_input_ok:
  assumes "timer_inv a"
  shows "\<exists>c a'. view_main_input_callback ev a = Inr (c, a') \<and> timer_inv a'
            \<and> cfg_file (env a') = cfg_file (env a)"
proof (cases "type ev = InputTypeShort")
  case True
  with assms show ?thesis
    by (auto simp: view_main_input_callback_def redraw_def case_prod_beta Let_def)
next
  case ns: False
  show ?thesis
  proof (cases "type ev = InputTypePress \<and> key ev = InputKeyOk")
    case True
    from switch_ok [OF assms, of "View LifecounterViewSubmenu"] obtain a' where
      "view_dispatcher_switch_to_view a (View LifecounterViewSubmenu) = Inr a'" "timer_inv a'" "env a' = env a"
      by auto
    with True ns show ?thesis by (auto simp: view_main_input_callback_def)
  next
    case False
    with ns assms show ?thesis by (auto simp: view_main_input_callback_def redraw_def)
  qed
qed

lemma view_input_ok:
  assumes "timer_inv a"
  shows "\<exists>c a'. view_input v ev a = Inr (c, a') \<and> timer_inv a'
            \<and> cfg_file (env a') = cfg_file (env a)"
  using view_splash_input_ok [OF assms, of ev] view_main_input_ok [OF assms, of ev] assms
  by (cases v) auto

lemma handle_input_ok:
  assumes "timer_inv a"
  shows "\<exists>a'. view_dispatcher_handle_input v ev a = Inr a' \<and> timer_inv a'
            \<and> cfg_file (env a') = cfg_file (env a)"
proof -
  from view_input_ok [OF assms, of v ev] obtain c a1 where
    1: "view_input v ev a = Inr (c, a1)" "timer_inv a1" "cfg_file (env a1) = cfg_file (env a)"
    by blast
  from switch_ok [OF 1(2), of "view_previous v"] obtain a2 where
    2: "view_dispatcher_switch_to_view a1 (view_previous v) = Inr a2" "timer_inv a2" "env a2 = env a1"
    by auto
  show ?thesis
    using 1 2 by (auto simp: view_dispatcher_handle_input_def)
qed

lemma submenu_callback_ok:
  assumes "timer_inv a"
  shows "\<exists>a'. submenu_callback a index = Inr a' \<and> timer_inv a'
            \<and> cfg_file (env a') = cfg_file (env a)"
proof -
  let ?b = "a\<lparr>model := (model a)\<lparr>player_1_life := default_life (model a),
                                   player_2_life := default_life (model a)\<rparr>,
              env := audio_feedback ((model a)\<lparr>player_1_life := default_life (model a),
                                   player_2_life := default_life (model a)\<rparr>) SoundReset (env a)\<rparr>"
  have b: "timer_inv ?b" using assms by simp
  from switch_ok [OF assms, of "View LifecounterViewConfigure"]
       switch_ok [OF assms, of "View LifecounterViewMain"]
       switch_ok [OF b, of "View LifecounterViewMain"] assms
  show ?thesis
    by (auto simp: submenu_callback_def Let_def)
qed


lemma array_read_in_set: "array_read xs i = Inr x \<Longrightarrow> x \<in> set xs"
  by (auto simp: array_read_def split: if_splits)

lemma array_read_ok: "i < length xs \<Longrightarrow> array_read xs i = Inr (xs ! i)"
  by (simp add: array_read_def)

lemma item_change_ok:
  "\<exists>a'. item_change row i a = Inr a' \<and> timer_inv a' = timer_inv a
        \<and> current_view a' = current_view a
        \<and> cfg_file (env a') = cfg_file (env a)
        \<and> player_1_life (model a') = player_1_life (model a)
        \<and> player_2_life (model a') = player_2_life (model a)
        \<and> selected_player (model a') = selected_player (model a)"
proof (cases "unat i < values_count row")
  case False
  then show ?thesis by (simp add: item_change_def)
next
  case True
  consider "row = 0" | "row = 1" | "row = 2" | "row > 2" by atomize_elim arith
  then show ?thesis
  proof cases
    case 1
    with True have "unat i < length default_life_names" "unat i < length default_life_values"
      by (simp_all add: values_count_def COUNT_OF_def default_life_names_def default_life_values_def)
    with 1 True show ?thesis
      by (simp add: item_change_def default_life_change_def array_read_ok)
  next
    case 2
    with True have "unat i < length toggle_states_names"
      by (simp add: values_count_def COUNT_OF_def toggle_states_names_def toggle_state_values_def)
    with 2 True show ?thesis
      by (simp add: item_change_def backlight_change_def array_read_ok)
  next
    case 3
    with True have "unat i < length toggle_states_names"
      by (simp add: values_count_def COUNT_OF_def toggle_states_names_def toggle_state_values_def)
    with 3 True show ?thesis
      by (simp add: item_change_def audio_change_def array_read_ok)
  next
    case 4
    with True show ?thesis by (simp add: values_count_def)
  qed
qed

lemma setting_item_clicked_ok:
  assumes "timer_inv a"
  shows "\<exists>a'. setting_item_clicked a index = Inr a' \<and> timer_inv a'
           \<and> (index = 3 \<or> a' = a)"
proof (cases "index = 3")
  case True
  let ?b = "a\<lparr>env := write_config (model a) (audio_feedback (model a) SoundLifeChanged (env a))\<rparr>"
  have "timer_inv ?b" using assms by simp
  from switch_ok [OF this, of "View LifecounterViewSubmenu"] True show ?thesis
    by (auto simp: setting_item_clicked_def Let_def)
next
  case False
  with assms show ?thesis by (simp add: setting_item_clicked_def)
qed

lemma dispatch_ok:
  assumes "timer_inv a"
  shows "\<exists>a'. dispatch a ev = Inr a' \<and> timer_inv a'
           \<and> ((ev = ItemClick 3 \<and> current_view a = Some LifecounterViewConfigure)
                \<or> cfg_file (env a') = cfg_file (env a))"
proof (cases "current_view a")
  case None
  with assms show ?thesis by (simp add: dispatch_def)
next
  case (Some v)
  show ?thesis
  proof (cases ev)
    case (Input event)
    with Some handle_input_ok [OF assms, of v event] show ?thesis
      by (auto simp: dispatch_def)
  next
    case (SubmenuItem index)
    with Some submenu_callback_ok [OF assms, of index] assms show ?thesis
      by (auto simp: dispatch_def)
  next
    case (ItemChange row i)
    with Some item_change_ok [of row i a] assms show ?thesis
      by (auto simp: dispatch_def)
  next
    case (ItemClick index)
    with Some setting_item_clicked_ok [OF assms, of index] assms show ?thesis
      by (auto simp: dispatch_def)
  next
    case TimerElapsed
    with Some assms show ?thesis
      by (auto simp: dispatch_def view_main_timer_callback_def
            view_main_custom_event_callback_def redraw_def)
  qed
qed

lemma run_ok: "timer_inv a \<Longrightarrow> \<exists>a'. run a evs = Inr a' \<and> timer_inv a'"
proof (induction evs arbitrary: a)
  case Nil
  then show ?case by simp
next
  case (Cons ev evs)
  from dispatch_ok [OF Cons.prems, of ev] obtain a1 where
    "dispatch a ev = Inr a1" "timer_inv a1" by blast
  with Cons.IH [of a1] show ?case by simp
qed

lemma app_alloc_Inr:
  assumes "app_alloc e = Inr a"
  shows "timer_inv a \<and> current_view a = Some LifecounterViewSplash
       \<and> default_life (model a) \<in> set default_life_values
       \<and> player_1_life (model a) = default_life (model a)
       \<and> player_2_life (model a) = default_life (model a)
       \<and> selected_player (model a) = 0"
  using assms
  by (auto simp: app_alloc_def Let_def view_dispatcher_switch_to_view_def timer_inv_def
        zero_model_def
      dest: array_read_in_set split: sum.splits prod.splits)

section \<open>Back navigation\<close>

lemma view_input_back:
  "\<exists>a1. view_input v back_short a = Inr (False, a1) \<and> timer_inv a1 = timer_inv a
        \<and> current_view a1 = current_view a \<and> model a1 = model a \<and> env a1 = env a"
  by (cases v)
     (simp_all add: back_short_def view_splash_input_callback_def view_main_input_callback_def
        redraw_def)

text \<open>
  Claim C3, as amended. A short press of Back, which no view consumes, takes the
  dispatcher from the menu to no view at all (the application exits), from the settings
  and from the counter view to the menu, and from the splash view to the counter view;
  the model and the environment are untouched.
\<close>

theorem back_navigation_targets:
  assumes "timer_inv a" and "current_view a = Some v"
  shows "\<exists>a'. dispatch a (Input back_short) = Inr a'
           \<and> current_view a' =
               (case v of
                  LifecounterViewSubmenu \<Rightarrow> None
                | LifecounterViewConfigure \<Rightarrow> Some LifecounterViewSubmenu
                | LifecounterViewMain \<Rightarrow> Some LifecounterViewSubmenu
                | LifecounterViewSplash \<Rightarrow> Some LifecounterViewMain)
           \<and> model a' = model a \<and> env a' = env a"
proof -
  from view_input_back [of v a] obtain a1 where
    1: "view_input v back_short a = Inr (False, a1)" "timer_inv a1" "model a1 = model a" "env a1 = env a"
    using assms(1) by auto
  from switch_ok [OF 1(2), of "view_previous v"] obtain a2 where
    2: "view_dispatcher_switch_to_view a1 (view_previous v) = Inr a2"
       "current_view a2 = (case view_previous v of VIEW_NONE \<Rightarrow> None | View w \<Rightarrow> Some w)"
       "model a2 = model a1" "env a2 = env a1"
    by auto
  have k: "key back_short = InputKeyBack" "type back_short = InputTypeShort"
    by (simp_all add: back_short_def)
  show ?thesis
    using 1 2 assms(2) k
    by (cases v)
       (simp_all add: dispatch_def view_dispatcher_handle_input_def navigation_exit_callback_def
          navigation_submenu_callback_def navigation_main_callback_def)
qed

theorem back_on_splash_counterexample:
  "(case lifecounter_app (env_with None) [Input back_short] of
      Inl e \<Rightarrow> None | Inr a \<Rightarrow> current_view a) = Some LifecounterViewMain"
  by code_simp

theorem back_navigation_targets_witness:
  "timer_inv (app_on LifecounterViewSplash zero_model)
   \<and> current_view (app_on LifecounterViewSplash zero_model) = Some LifecounterViewSplash
   \<and> (\<exists>a'. dispatch (app_on LifecounterViewSplash zero_model) (Input back_short) = Inr a'
          \<and> current_view a' = Some LifecounterViewMain)"
  using back_navigation_targets [of "app_on LifecounterViewSplash zero_model" LifecounterViewSplash]
  by (auto simp: app_on_def timer_inv_def)

section \<open>Reset\<close>

text \<open>
  Claim C5. Whatever the two counters hold, negative values included, the menu entry
  "Reset lifes" sets both to the default life the model holds at that moment, leaves
  that default as it is and shows the counter view.
\<close>

theorem reset_postcondition:
  assumes "timer_inv a"
  shows "\<exists>a'. submenu_callback a (submenu_index LifecounterSubmenuIndexReset) = Inr a'
           \<and> player_1_life (model a') = default_life (model a)
           \<and> player_2_life (model a') = default_life (model a)
           \<and> default_life (model a') = default_life (model a)
           \<and> current_view a' = Some LifecounterViewMain"
proof -
  let ?m = "(model a)\<lparr>player_1_life := default_life (model a),
                       player_2_life := default_life (model a)\<rparr>"
  let ?b = "a\<lparr>model := ?m, env := audio_feedback ?m SoundReset (env a)\<rparr>"
  have "timer_inv ?b" using assms by simp
  from switch_ok [OF this, of "View LifecounterViewMain"] show ?thesis
    by (auto simp: submenu_callback_def Let_def)
qed

theorem reset_postcondition_witness:
  "timer_inv (app_on LifecounterViewSubmenu (model_with 1 (- 5) 3))
   \<and> (\<exists>a'. submenu_callback (app_on LifecounterViewSubmenu (model_with 1 (- 5) 3))
             (submenu_index LifecounterSubmenuIndexReset) = Inr a'
          \<and> player_1_life (model a') = 20 \<and> player_2_life (model a') = 20)"
  using reset_postcondition [of "app_on LifecounterViewSubmenu (model_with 1 (- 5) 3)"]
  by (auto simp: app_on_def timer_inv_def model_with_def)

section \<open>The counters\<close>

lemma sint_plus_one:
  fixes x :: c_int
  assumes "sint x < INT_MAX"
  shows "sint (x + 1) = sint x + 1"
proof -
  have "- (2 ^ 31) \<le> sint x" using sint_ge [of x] by simp
  with assms have "signed_take_bit 31 (sint x + 1) = sint x + 1"
    by (intro signed_take_bit_int_eq_self) (simp_all add: INT_MAX_def)
  then show ?thesis by (simp add: sint_word_ariths)
qed

lemma sint_minus_one:
  fixes x :: c_int
  assumes "INT_MIN < sint x"
  shows "sint (x - 1) = sint x - 1"
proof -
  have "sint x < 2 ^ 31" using sint_lt [of x] by simp
  with assms have "signed_take_bit 31 (sint x - 1) = sint x - 1"
    by (intro signed_take_bit_int_eq_self) (simp_all add: INT_MIN_def)
  then show ?thesis by (simp add: sint_word_ariths)
qed

text \<open>
  Claim C6, as amended. On the counter view a short press of Up adds 1 to the selected
  counter and a short press of Down subtracts 1, in 32-bit arithmetic; the other counter
  and the selector stay as they are and nothing is clamped, so Down at 0 gives -1. The
  counters are C \<open>int\<close>s: the step is exactly +1 for every value below \<open>INT_MAX\<close> and
  exactly -1 for every value above \<open>INT_MIN\<close>.
\<close>

theorem counter_up_down:
  "(\<exists>a'. view_main_input_callback (short_press InputKeyUp) a = Inr (False, a')
        \<and> selected_life (model a') = selected_life (model a) + 1
        \<and> other_life (model a') = other_life (model a)
        \<and> selected_player (model a') = selected_player (model a)
        \<and> (sint (selected_life (model a)) < INT_MAX \<longrightarrow>
             sint (selected_life (model a')) = sint (selected_life (model a)) + 1))
   \<and> (\<exists>a'. view_main_input_callback (short_press InputKeyDown) a = Inr (False, a')
        \<and> selected_life (model a') = selected_life (model a) - 1
        \<and> other_life (model a') = other_life (model a)
        \<and> selected_player (model a') = selected_player (model a)
        \<and> (INT_MIN < sint (selected_life (model a)) \<longrightarrow>
             sint (selected_life (model a')) = sint (selected_life (model a)) - 1))"
  by (simp add: view_main_input_callback_def short_press_def main_key_up_def main_key_down_def
        redraw_def selected_life_def other_life_def Let_def sint_plus_one sint_minus_one)

theorem counter_up_down_witness:
  "sint (selected_life (model (app_on LifecounterViewMain (model_with 1 20 0)))) = 0
   \<and> (0 :: int) < INT_MAX \<and> INT_MIN < (0 :: int)
   \<and> (\<exists>a'. view_main_input_callback (short_press InputKeyUp)
              (app_on LifecounterViewMain (model_with 1 20 0)) = Inr (False, a')
          \<and> sint (player_2_life (model a')) = 1
          \<and> player_1_life (model a') = 20
          \<and> selected_player (model a') = 1)
   \<and> (\<exists>a'. view_main_input_callback (short_press InputKeyDown)
              (app_on LifecounterViewMain (model_with 1 20 0)) = Inr (False, a')
          \<and> sint (player_2_life (model a')) = - 1
          \<and> player_1_life (model a') = 20
          \<and> selected_player (model a') = 1)"
  using counter_up_down [of "app_on LifecounterViewMain (model_with 1 20 0)"]
  by (auto simp: app_on_def model_with_def selected_life_def other_life_def
        INT_MIN_def INT_MAX_def)

theorem counter_up_overflow_counterexample:
  "(case view_main_input_callback (short_press InputKeyUp)
           (app_on LifecounterViewMain (model_with 0 2147483647 20)) of
      Inl e \<Rightarrow> 0
    | Inr (c, a') \<Rightarrow> sint (player_1_life (model a'))) = - 2147483648
   \<and> sint (2147483647 :: c_int) + 1 = 2147483648"
  by (simp add: view_main_input_callback_def short_press_def main_key_up_def
        redraw_def app_on_def model_with_def Let_def)

section \<open>The selector\<close>

lemma dispatch_toggle:
  assumes "current_view a = Some LifecounterViewMain" and "is_toggle ev"
  shows "\<exists>a'. dispatch a (Input ev) = Inr a'
           \<and> current_view a' = Some LifecounterViewMain
           \<and> selected_player (model a') = (if selected_player (model a) = 0 then 1 else 0)
           \<and> player_1_life (model a') = player_1_life (model a)
           \<and> player_2_life (model a') = player_2_life (model a)"
  using assms
  by (auto simp: dispatch_def view_dispatcher_handle_input_def view_main_input_callback_def
        is_toggle_def main_key_left_right_def redraw_def Let_def)

lemma run_toggles:
  assumes "current_view a = Some LifecounterViewMain"
    and "selected_player (model a) = 0 \<or> selected_player (model a) = 1"
    and "\<forall>ev\<in>set evs. is_toggle ev"
  shows "\<exists>a'. run a (map Input evs) = Inr a'
           \<and> current_view a' = Some LifecounterViewMain
           \<and> selected_player (model a') =
               (if even (length evs) then selected_player (model a)
                else 1 - selected_player (model a))
           \<and> player_1_life (model a') = player_1_life (model a)
           \<and> player_2_life (model a') = player_2_life (model a)"
  using assms
proof (induction evs arbitrary: a)
  case Nil
  then show ?case by simp
next
  case (Cons ev evs)
  from dispatch_toggle [OF Cons.prems(1), of ev] Cons.prems(3) obtain a1 where
    1: "dispatch a (Input ev) = Inr a1" "current_view a1 = Some LifecounterViewMain"
       "selected_player (model a1) = (if selected_player (model a) = 0 then 1 else 0)"
       "player_1_life (model a1) = player_1_life (model a)"
       "player_2_life (model a1) = player_2_life (model a)"
    by auto
  have 2: "selected_player (model a1) = 0 \<or> selected_player (model a1) = 1"
    using 1(3) by simp
  from Cons.IH [OF 1(2) 2] Cons.prems(3) obtain a2 where
    3: "run a1 (map Input evs) = Inr a2" "current_view a2 = Some LifecounterViewMain"
       "selected_player (model a2) =
          (if even (length evs) then selected_player (model a1) else 1 - selected_player (model a1))"
       "player_1_life (model a2) = player_1_life (model a1)"
       "player_2_life (model a2) = player_2_life (model a1)"
    by auto
  show ?case
    using 1 3 Cons.prems(2) by auto
qed

text \<open>
  Claim C7. On the counter view, starting from selector 0 (the first counter), any
  sequence of short presses of Left or Right leaves the selector at 0 when the sequence
  has even length and at 1 when it has odd length; the selector is always one of the two
  and the counters are untouched.
\<close>

theorem selector_toggle_parity:
  assumes "current_view a = Some LifecounterViewMain"
    and "selected_player (model a) = 0"
    and "\<forall>ev\<in>set evs. is_toggle ev"
  shows "\<exists>a'. run a (map Input evs) = Inr a'
           \<and> selected_player (model a') = (if even (length evs) then 0 else 1)
           \<and> player_1_life (model a') = player_1_life (model a)
           \<and> player_2_life (model a') = player_2_life (model a)"
  using run_toggles [OF assms(1) _ assms(3)] assms(2) by auto

theorem selector_toggle_parity_witness:
  "current_view (app_on LifecounterViewMain zero_model) = Some LifecounterViewMain
   \<and> selected_player (model (app_on LifecounterViewMain zero_model)) = 0
   \<and> is_toggle (short_press InputKeyLeft) \<and> is_toggle (short_press InputKeyRight)
   \<and> (\<exists>a'. run (app_on LifecounterViewMain zero_model)
              (map Input [short_press InputKeyLeft, short_press InputKeyRight,
                          short_press InputKeyLeft]) = Inr a'
          \<and> selected_player (model a') = 1)"
  using selector_toggle_parity [of "app_on LifecounterViewMain zero_model"
      "[short_press InputKeyLeft, short_press InputKeyRight, short_press InputKeyLeft]"]
  by (auto simp: app_on_def zero_model_def is_toggle_def short_press_def)

section \<open>Timer scoping\<close>

lemma enter_main:
  assumes "timer_inv a" and "current_view a \<noteq> Some LifecounterViewMain"
  shows "\<exists>a'. view_dispatcher_switch_to_view a (View LifecounterViewMain) = Inr a'
           \<and> current_view a' = Some LifecounterViewMain
           \<and> timer a' = Some (timers_allocated a)
           \<and> timers_running a' = [timers_allocated a]
           \<and> timers_allocated a' = Suc (timers_allocated a)"
proof -
  from assms have t: "timer a = None" "timers_running a = []"
    by (auto simp: timer_inv_def)
  have ex: "(case current_view a of None \<Rightarrow> Inr a | Some v \<Rightarrow> view_exit v a) = Inr a"
    using assms(2) by (cases "current_view a"; cases "the (current_view a)") auto
  show ?thesis
    using t by (simp add: view_dispatcher_switch_to_view_def ex view_main_enter_callback_def Let_def)
qed

lemma leave_main:
  assumes "timer_inv a" and "current_view a = Some LifecounterViewMain"
    and "target \<noteq> View LifecounterViewMain"
  shows "\<exists>a'. view_dispatcher_switch_to_view a target = Inr a'
           \<and> timer a' = None \<and> timers_running a' = []
           \<and> timers_allocated a' = timers_allocated a"
proof -
  from assms obtain t where t: "timer a = Some t" "timers_running a = [t]"
    by (auto simp: timer_inv_def)
  show ?thesis
  proof (cases target)
    case VIEW_NONE
    with t assms(2) show ?thesis
      by (simp add: view_dispatcher_switch_to_view_def view_main_exit_callback_def)
  next
    case (View v)
    with t assms(2,3) show ?thesis
      by (cases v) (simp_all add: view_dispatcher_switch_to_view_def view_main_exit_callback_def)
  qed
qed

text \<open>
  Claim C8. From every start of the application, whatever events arrive, no callback
  crashes and the timer discipline holds: at most one timer is alive, and one is alive
  exactly while the counter view is the current view. Entering the counter view from
  another view allocates and starts exactly one new timer; leaving it for any other
  target stops and frees the timer; the enter callback asserts that no timer is set.
\<close>

theorem timer_scoping:
  "(app_alloc e = Inr a0 \<longrightarrow> (\<exists>a'. lifecounter_app e evs = Inr a' \<and> timer_inv a'))
   \<and> (timer_inv a \<and> current_view a \<noteq> Some LifecounterViewMain \<longrightarrow>
        (\<exists>a'. view_dispatcher_switch_to_view a (View LifecounterViewMain) = Inr a'
           \<and> current_view a' = Some LifecounterViewMain
           \<and> timer a' = Some (timers_allocated a)
           \<and> timers_running a' = [timers_allocated a]
           \<and> timers_allocated a' = Suc (timers_allocated a)))
   \<and> (timer_inv b \<and> current_view b = Some LifecounterViewMain
        \<and> target \<noteq> View LifecounterViewMain \<longrightarrow>
        (\<exists>b'. view_dispatcher_switch_to_view b target = Inr b'
           \<and> timer b' = None \<and> timers_running b' = []
           \<and> timers_allocated b' = timers_allocated b))
   \<and> (timer b \<noteq> None \<longrightarrow> view_main_enter_callback b = Inl AssertFailed)
   \<and> (timer_inv b \<longrightarrow> length (timers_running b) \<le> 1
        \<and> ((timers_running b \<noteq> []) = (current_view b = Some LifecounterViewMain)))"
proof -
  have 1: "app_alloc e = Inr a0 \<longrightarrow> (\<exists>a'. lifecounter_app e evs = Inr a' \<and> timer_inv a')"
  proof
    assume a: "app_alloc e = Inr a0"
    then have "timer_inv a0" using app_alloc_Inr by blast
    from run_ok [OF this, of evs] a show "\<exists>a'. lifecounter_app e evs = Inr a' \<and> timer_inv a'"
      by (simp add: lifecounter_app_def)
  qed
  have 5: "timer_inv b \<longrightarrow> length (timers_running b) \<le> 1
        \<and> ((timers_running b \<noteq> []) = (current_view b = Some LifecounterViewMain))"
    by (auto simp: timer_inv_def split: option.splits)
  show ?thesis
    using 1 5 enter_main [of a] leave_main [of b target]
    by (simp add: view_main_enter_callback_def)
qed

lemma app_alloc_fresh: "app_alloc (env_with None) = Inr fresh_start"
  by code_simp

theorem timer_scoping_witness:
  "app_alloc (env_with None) = Inr fresh_start
   \<and> (\<exists>a'. lifecounter_app (env_with None) there_and_back = Inr a' \<and> timer_inv a')
   \<and> timer_inv fresh_start \<and> current_view fresh_start \<noteq> Some LifecounterViewMain
   \<and> (\<exists>a'. view_dispatcher_switch_to_view fresh_start (View LifecounterViewMain) = Inr a'
          \<and> timer a' = Some 0 \<and> timers_running a' = [0] \<and> timers_allocated a' = 1)
   \<and> timer_inv (app_on LifecounterViewMain zero_model)
   \<and> current_view (app_on LifecounterViewMain zero_model) = Some LifecounterViewMain
   \<and> View LifecounterViewSubmenu \<noteq> View LifecounterViewMain
   \<and> (\<exists>b'. view_dispatcher_switch_to_view (app_on LifecounterViewMain zero_model)
             (View LifecounterViewSubmenu) = Inr b'
          \<and> timer b' = None \<and> timers_running b' = [])
   \<and> timer (app_on LifecounterViewMain zero_model) \<noteq> None
   \<and> view_main_enter_callback (app_on LifecounterViewMain zero_model) = Inl AssertFailed"
  using timer_scoping [of "env_with None" fresh_start there_and_back fresh_start
      "app_on LifecounterViewMain zero_model" "View LifecounterViewSubmenu"] app_alloc_fresh
  by (auto simp: fresh_start_def app_on_def timer_inv_def)

section \<open>Settings\<close>

lemma item_change_field:
  assumes "unat i < values_count row"
  shows "\<exists>a'. item_change row i a = Inr a'
           \<and> (row = 0 \<longrightarrow> default_life (model a') = default_life_values ! unat i)
           \<and> (row = 1 \<longrightarrow> backlight_on (model a') = (i \<noteq> 0))
           \<and> (row = 2 \<longrightarrow> sound_on (model a') = (i \<noteq> 0))"
proof -
  consider "row = 0" | "row = 1" | "row = 2" | "row > 2" by atomize_elim arith
  then show ?thesis
  proof cases
    case 1
    with assms have "unat i < length default_life_names" "unat i < length default_life_values"
      by (simp_all add: values_count_def COUNT_OF_def default_life_names_def default_life_values_def)
    with 1 assms show ?thesis
      by (simp add: item_change_def default_life_change_def array_read_ok)
  next
    case 2
    with assms have "unat i < length toggle_states_names"
      by (simp add: values_count_def COUNT_OF_def toggle_states_names_def toggle_state_values_def)
    with 2 assms show ?thesis
      by (simp add: item_change_def backlight_change_def array_read_ok)
  next
    case 3
    with assms have "unat i < length toggle_states_names"
      by (simp add: values_count_def COUNT_OF_def toggle_states_names_def toggle_state_values_def)
    with 3 assms show ?thesis
      by (simp add: item_change_def audio_change_def array_read_ok)
  next
    case 4
    with assms show ?thesis by (simp add: values_count_def)
  qed
qed

lemma save_writes:
  assumes "timer_inv a" and "storage_ready (env a)"
  shows "\<exists>a'. setting_item_clicked a 3 = Inr a'
           \<and> cfg_file (env a') = Some (printf_config (default_life (model a))
                 (bool_to_int (backlight_on (model a))) (bool_to_int (sound_on (model a))))
           \<and> current_view a' = Some LifecounterViewSubmenu \<and> model a' = model a"
proof -
  let ?e = "audio_feedback (model a) SoundLifeChanged (env a)"
  have r: "storage_ready ?e"
    using assms(2) by (cases "sound_on (model a)") (simp_all add: audio_feedback_def beep_def)
  let ?b = "a\<lparr>env := write_config (model a) ?e\<rparr>"
  have "timer_inv ?b" using assms(1) by simp
  from switch_ok [OF this, of "View LifecounterViewSubmenu"] show ?thesis
    by (auto simp: setting_item_clicked_def Let_def write_config_ready [OF r])
qed

text \<open>
  Claim C9. A change of the starting value or of a toggle in the settings list sets the
  matching field of the model at once, leaves the configuration file and both counters
  as they are; of all events only a click on the save row of the settings view can
  change the configuration file, and on a storage that opens it writes the three
  current values.
\<close>

theorem settings_edits_framed:
  "(unat i < values_count row \<longrightarrow>
      (\<exists>a'. item_change row i a = Inr a'
         \<and> (row = 0 \<longrightarrow> default_life (model a') = default_life_values ! unat i)
         \<and> (row = 1 \<longrightarrow> backlight_on (model a') = (i \<noteq> 0))
         \<and> (row = 2 \<longrightarrow> sound_on (model a') = (i \<noteq> 0))
         \<and> cfg_file (env a') = cfg_file (env a)
         \<and> player_1_life (model a') = player_1_life (model a)
         \<and> player_2_life (model a') = player_2_life (model a)))
   \<and> (timer_inv b \<longrightarrow>
      (\<exists>b'. dispatch b ev = Inr b'
         \<and> ((ev = ItemClick 3 \<and> current_view b = Some LifecounterViewConfigure)
              \<or> cfg_file (env b') = cfg_file (env b))))
   \<and> (timer_inv b \<and> storage_ready (env b) \<longrightarrow>
      (\<exists>b'. setting_item_clicked b 3 = Inr b'
         \<and> cfg_file (env b') = Some (printf_config (default_life (model b))
               (bool_to_int (backlight_on (model b))) (bool_to_int (sound_on (model b))))))"
proof -
  have 1: "unat i < values_count row \<longrightarrow>
      (\<exists>a'. item_change row i a = Inr a'
         \<and> (row = 0 \<longrightarrow> default_life (model a') = default_life_values ! unat i)
         \<and> (row = 1 \<longrightarrow> backlight_on (model a') = (i \<noteq> 0))
         \<and> (row = 2 \<longrightarrow> sound_on (model a') = (i \<noteq> 0))
         \<and> cfg_file (env a') = cfg_file (env a)
         \<and> player_1_life (model a') = player_1_life (model a)
         \<and> player_2_life (model a') = player_2_life (model a))"
  proof
    assume "unat i < values_count row"
    from item_change_field [OF this, of a] obtain a1 where
      f: "item_change row i a = Inr a1"
         "row = 0 \<longrightarrow> default_life (model a1) = default_life_values ! unat i"
         "row = 1 \<longrightarrow> backlight_on (model a1) = (i \<noteq> 0)"
         "row = 2 \<longrightarrow> sound_on (model a1) = (i \<noteq> 0)"
      by blast
    from item_change_ok [of row i a] obtain a2 where
      g: "item_change row i a = Inr a2" "cfg_file (env a2) = cfg_file (env a)"
         "player_1_life (model a2) = player_1_life (model a)"
         "player_2_life (model a2) = player_2_life (model a)"
      by blast
    from f(1) g(1) have "a2 = a1" by simp
    with f g show "\<exists>a'. item_change row i a = Inr a'
         \<and> (row = 0 \<longrightarrow> default_life (model a') = default_life_values ! unat i)
         \<and> (row = 1 \<longrightarrow> backlight_on (model a') = (i \<noteq> 0))
         \<and> (row = 2 \<longrightarrow> sound_on (model a') = (i \<noteq> 0))
         \<and> cfg_file (env a') = cfg_file (env a)
         \<and> player_1_life (model a') = player_1_life (model a)
         \<and> player_2_life (model a') = player_2_life (model a)"
      by blast
  qed
  have 2: "timer_inv b \<longrightarrow>
      (\<exists>b'. dispatch b ev = Inr b'
         \<and> ((ev = ItemClick 3 \<and> current_view b = Some LifecounterViewConfigure)
              \<or> cfg_file (env b') = cfg_file (env b)))"
    using dispatch_ok [of b ev] by blast
  have 3: "timer_inv b \<and> storage_ready (env b) \<longrightarrow>
      (\<exists>b'. setting_item_clicked b 3 = Inr b'
         \<and> cfg_file (env b') = Some (printf_config (default_life (model b))
               (bool_to_int (backlight_on (model b))) (bool_to_int (sound_on (model b)))))"
    using save_writes [of b] by blast
  from 1 2 3 show ?thesis by (intro conjI)
qed

theorem settings_edits_framed_witness:
  "unat (4 :: uint8_t) < values_count 0
   \<and> (\<exists>a'. item_change 0 4 (app_on LifecounterViewConfigure (model_with 0 5 (- 2))) = Inr a'
          \<and> default_life (model a') = 100
          \<and> cfg_file (env a') = None
          \<and> player_1_life (model a') = 5 \<and> player_2_life (model a') = - 2)
   \<and> timer_inv (app_on LifecounterViewConfigure (model_with 0 5 (- 2)))
   \<and> storage_ready (env (app_on LifecounterViewConfigure (model_with 0 5 (- 2))))
   \<and> (\<exists>b'. dispatch (app_on LifecounterViewConfigure (model_with 0 5 (- 2))) (ItemChange 2 1) = Inr b'
          \<and> cfg_file (env b') = None)
   \<and> (\<exists>b'. setting_item_clicked (app_on LifecounterViewConfigure (model_with 0 5 (- 2))) 3 = Inr b'
          \<and> cfg_file (env b') = Some (printf_config 20 0 0))"
  using settings_edits_framed [of 4 0 "app_on LifecounterViewConfigure (model_with 0 5 (- 2))"
      "app_on LifecounterViewConfigure (model_with 0 5 (- 2))" "ItemChange 2 1"]
  by (auto simp: app_on_def model_with_def timer_inv_def values_count_def COUNT_OF_def
        default_life_values_def env_with_def bool_to_int_def)

section \<open>Startup lookups\<close>

text \<open>
  With the size \<open>app_alloc\<close> passes, the lookup of the starting life stays inside the
  table exactly for the five values of the table; the lookups of the two flags always
  do. So \<open>app_alloc\<close> completes exactly when the first line of the file parses to one of
  the five values (or there is no line), and from such a start the starting life stays
  in the table whatever events arrive.
\<close>

lemma find_index_default_life:
  "find_index default_life_values (sizeof_int_array default_life_values) v =
     (if v = 0 then Inr 0 else if v = 10 then Inr 1 else if v = 20 then Inr 2
      else if v = 40 then Inr 3 else if v = 100 then Inr 4 else Inl OutOfBounds)"
proof -
  have l: "find_index_loop default_life_values 20 v 0 =
     (if v = 0 then Inr 0 else if v = 10 then Inr 1 else if v = 20 then Inr 2
      else if v = 40 then Inr 3 else if v = 100 then Inr 4 else Inl OutOfBounds)"
    apply (subst find_index_loop.simps)
    apply (subst find_index_loop.simps)
    apply (subst find_index_loop.simps)
    apply (subst find_index_loop.simps)
    apply (subst find_index_loop.simps)
    apply (subst find_index_loop.simps)
    apply (simp add: array_read_def default_life_values_def)
    done
  have s: "sizeof_int_array default_life_values = 20"
    by (simp add: sizeof_int_array_def default_life_values_def)
  show ?thesis
    unfolding find_index_def s l by simp
qed

lemma find_index_toggle:
  "find_index toggle_state_values (sizeof_int_array toggle_state_values) (bool_to_int b) =
     Inr (bool_to_int b)"
proof -
  have l: "find_index_loop toggle_state_values 8 (bool_to_int b) 0 = Inr (if b then 1 else 0)"
    apply (subst find_index_loop.simps)
    apply (subst find_index_loop.simps)
    apply (simp add: array_read_def toggle_state_values_def bool_to_int_def)
    done
  have s: "sizeof_int_array toggle_state_values = 8"
    by (simp add: sizeof_int_array_def toggle_state_values_def)
  show ?thesis
    unfolding find_index_def s l by (simp add: bool_to_int_def)
qed

lemma app_alloc_ok_iff:
  "(\<exists>a. app_alloc e = Inr a) \<longleftrightarrow>
     default_life (fst (read_config e zero_model)) \<in> set default_life_values"
proof -
  obtain settings e1 where r: "read_config e zero_model = (settings, e1)"
    by (cases "read_config e zero_model")
  have t: "\<And>b. array_read toggle_states_names (unat (ucast (bool_to_int b) :: uint8_t))
              = Inr (toggle_states_names ! (if b then 1 else 0))"
    by (simp add: array_read_def toggle_states_names_def bool_to_int_def)
  have n: "\<And>i. i < 5 \<Longrightarrow> array_read default_life_names i = Inr (default_life_names ! i)"
    by (simp add: array_read_def default_life_names_def)
  have v: "\<And>i. i < 5 \<Longrightarrow> array_read default_life_values i = Inr (default_life_values ! i)"
    by (simp add: array_read_def default_life_values_def)
  have s: "set default_life_values = {0, 10, 20, 40, 100}"
    by (simp add: default_life_values_def)
  show ?thesis
  proof (cases "default_life settings \<in> {0, 10, 20, 40, 100}")
    case True
    then consider "default_life settings = 0" | "default_life settings = 10"
      | "default_life settings = 20" | "default_life settings = 40"
      | "default_life settings = 100" by blast
    then have "\<exists>a. app_alloc e = Inr a"
      by cases
         (simp_all add: app_alloc_def r find_index_default_life find_index_toggle t n v Let_def
            view_dispatcher_switch_to_view_def)
    with True show ?thesis by (simp add: r s)
  next
    case False
    then have "app_alloc e = Inl OutOfBounds"
      by (simp add: app_alloc_def r find_index_default_life)
    with False show ?thesis by (simp add: r s)
  qed
qed

lemma switch_model:
  "view_dispatcher_switch_to_view a t = Inr a' \<Longrightarrow> model a' = model a"
  by (cases t; cases "current_view a")
     (auto simp: view_dispatcher_switch_to_view_def view_main_exit_callback_def
        view_main_enter_callback_def Let_def
      split: option.splits sum.splits if_splits LifecounterView.splits elim!: view_exit.elims view_enter.elims)

lemma main_key_default_life [simp]:
  "default_life (fst (main_key_up m e)) = default_life m"
  "default_life (fst (main_key_down m e)) = default_life m"
  "default_life (fst (main_key_left_right m e)) = default_life m"
  by (simp_all add: main_key_up_def main_key_down_def main_key_left_right_def Let_def)

lemma view_input_default_life:
  assumes "view_input v ev a = Inr (c, a')"
  shows "default_life (model a') = default_life (model a)"
proof (cases v)
  case LifecounterViewSplash
  with assms switch_model show ?thesis
    by (auto simp: view_splash_input_callback_def split: if_splits sum.splits)
next
  case LifecounterViewMain
  with assms switch_model show ?thesis
    by (auto simp: view_main_input_callback_def redraw_def case_prod_beta Let_def
        split: if_splits sum.splits)
next
  case LifecounterViewSubmenu
  with assms show ?thesis by simp
next
  case LifecounterViewConfigure
  with assms show ?thesis by simp
qed

lemma submenu_callback_default_life:
  assumes "submenu_callback a index = Inr a'"
  shows "default_life (model a') = default_life (model a)"
  using assms switch_model
  by (fastforce simp: submenu_callback_def Let_def split: if_splits)

lemma item_change_default_life:
  assumes "item_change row i a = Inr a'"
    and "default_life (model a) \<in> set default_life_values"
  shows "default_life (model a') \<in> set default_life_values"
  using assms
  by (auto simp: item_change_def default_life_change_def backlight_change_def audio_change_def
        Let_def dest: array_read_in_set split: if_splits sum.splits)

lemma dispatch_default_life:
  assumes "dispatch a ev = Inr a'"
    and "default_life (model a) \<in> set default_life_values"
  shows "default_life (model a') \<in> set default_life_values"
proof (cases "current_view a")
  case None
  with assms show ?thesis by (simp add: dispatch_def)
next
  case (Some v)
  show ?thesis
  proof (cases ev)
    case (Input event)
    with Some assms(1) obtain c a1 where
      1: "view_input v event a = Inr (c, a1)" and 2: "a' = a1 \<or> view_dispatcher_switch_to_view a1 (view_previous v) = Inr a'"
      by (auto simp: dispatch_def view_dispatcher_handle_input_def split: sum.splits if_splits)
    from 2 switch_model have "model a' = model a1" by auto
    with view_input_default_life [OF 1] assms(2) show ?thesis by simp
  next
    case (SubmenuItem index)
    with Some assms submenu_callback_default_life [of a index a'] show ?thesis
      by (auto simp: dispatch_def split: if_splits)
  next
    case (ItemChange row i)
    with Some assms item_change_default_life [of row i a a'] show ?thesis
      by (auto simp: dispatch_def split: if_splits)
  next
    case (ItemClick index)
    with Some assms switch_model show ?thesis
      by (fastforce simp: dispatch_def setting_item_clicked_def Let_def split: if_splits)
  next
    case TimerElapsed
    with Some assms show ?thesis
      by (auto simp: dispatch_def view_main_timer_callback_def
            view_main_custom_event_callback_def redraw_def split: if_splits)
  qed
qed

lemma run_default_life:
  "run a evs = Inr a' \<Longrightarrow> default_life (model a) \<in> set default_life_values \<Longrightarrow>
   default_life (model a') \<in> set default_life_values"
proof (induction evs arbitrary: a)
  case Nil
  then show ?case by simp
next
  case (Cons ev evs)
  then obtain a1 where 1: "dispatch a ev = Inr a1" "run a1 evs = Inr a'"
    by (auto split: sum.splits)
  from dispatch_default_life [OF 1(1) Cons.prems(2)] Cons.IH [OF 1(2)] show ?case by blast
qed

lemma lifecounter_app_default_life:
  "lifecounter_app e evs = Inr a \<Longrightarrow> default_life (model a) \<in> set default_life_values"
  using run_default_life app_alloc_Inr
  by (fastforce simp: lifecounter_app_def split: sum.splits)

text \<open>
  Claim C4, at a failing input. With the one-byte file "1" (a truncated "10" or "100")
  \<open>read_config\<close> hands \<open>app_alloc\<close> the default life 1, which is none of 0, 10, 20,
  40, 100, and the table lookup that should map it back into the table reads outside
  the array.
\<close>

theorem startup_default_life_outside_set:
  "default_life (fst (read_config (env_with (Some ''1'')) zero_model)) = 1
   \<and> (1 :: c_int) \<notin> set default_life_values
   \<and> app_alloc (env_with (Some ''1'')) = Inl OutOfBounds"
  by code_simp

text \<open>
  Claim C10, at a failing input. \<open>app_alloc\<close> passes \<open>sizeof\<close> of the array (20) as its
  element count, so looking up a value that is not in the table reads element 5 and
  beyond; with the true count the result -1 would become index 255 of a five-element
  name table.
\<close>

theorem startup_lookup_out_of_bounds:
  "find_index default_life_values (sizeof_int_array default_life_values) 7 = Inl OutOfBounds
   \<and> find_index default_life_values (COUNT_OF default_life_values) 7 = Inr (- 1)
   \<and> unat (ucast (- 1 :: c_int) :: uint8_t) = 255
   \<and> array_read default_life_names 255 = Inl OutOfBounds
   \<and> app_alloc (env_with (Some (''7'' @ [NL] @ ''0'' @ [NL] @ ''0'' @ [NL]))) = Inl OutOfBounds"
  by code_simp

end
